theory Spec2Isabelle
  imports Complex_Main "HOL-Library.Sublist"
begin

section \<open>Strings as the automation scripts use them\<close>

text \<open>
  The two scripts (\<^verbatim>\<open>cybersecurity_autopost.py\<close> and \<^verbatim>\<open>gemini_autopost.py\<close>) work on
  Python \<^verbatim>\<open>str\<close> values. A string is modelled as a \<^typ>\<open>string\<close>, one \<^typ>\<open>char\<close> per
  character, and the development is about ASCII text: a character with code 128 or more
  is carried along as a symbol that is neither whitespace nor a letter.  Python integers
  are \<^typ>\<open>int\<close>.
\<close>

subsection \<open>Character classes and case\<close>

definition isspace :: "char \<Rightarrow> bool" where
  \<comment> \<open>\<^verbatim>\<open>str.isspace\<close> and the regex class \<^verbatim>\<open>\s\<close> on ASCII: TAB, LF, VT, FF, CR,
      the separators 0x1C..0x1F, and the blank.\<close>
  "isspace c \<longleftrightarrow> (let n = (of_char c :: nat) in (9 \<le> n \<and> n \<le> 13) \<or> (28 \<le> n \<and> n \<le> 32))"

definition is_upper :: "char \<Rightarrow> bool" where
  "is_upper c \<longleftrightarrow> (let n = (of_char c :: nat) in 65 \<le> n \<and> n \<le> 90)"

definition is_lower :: "char \<Rightarrow> bool" where
  "is_lower c \<longleftrightarrow> (let n = (of_char c :: nat) in 97 \<le> n \<and> n \<le> 122)"

definition is_digit :: "char \<Rightarrow> bool" where
  "is_digit c \<longleftrightarrow> (let n = (of_char c :: nat) in 48 \<le> n \<and> n \<le> 57)"

definition lower_char :: "char \<Rightarrow> char" where
  "lower_char c = (if is_upper c then char_of (of_char c + (32::nat)) else c)"


definition lower :: "string \<Rightarrow> string" where
  \<comment> \<open>\<^verbatim>\<open>s.lower()\<close>\<close>
  "lower s = map lower_char s"

definition is_alnum_lc :: "char \<Rightarrow> bool" where
  \<comment> \<open>the regex class \<^verbatim>\<open>[a-z0-9]\<close>\<close>
  "is_alnum_lc c \<longleftrightarrow> is_lower c \<or> is_digit c"

subsection \<open>Stripping, slicing and searching\<close>

definition lstrip :: "string \<Rightarrow> string" where
  "lstrip s = dropWhile isspace s"

definition rstrip :: "string \<Rightarrow> string" where
  \<comment> \<open>\<^verbatim>\<open>s.rstrip()\<close>\<close>
  "rstrip s = rev (dropWhile isspace (rev s))"

definition strip :: "string \<Rightarrow> string" where
  \<comment> \<open>\<^verbatim>\<open>s.strip()\<close>\<close>
  "strip s = lstrip (rstrip s)"

definition rstrip_chars :: "string \<Rightarrow> string \<Rightarrow> string" where
  \<comment> \<open>\<^verbatim>\<open>s.rstrip(chars)\<close>\<close>
  "rstrip_chars chars s = rev (dropWhile (\<lambda>c. c \<in> set chars) (rev s))"

definition strip_chars :: "string \<Rightarrow> string \<Rightarrow> string" where
  \<comment> \<open>\<^verbatim>\<open>s.strip(chars)\<close>\<close>
  "strip_chars chars s = dropWhile (\<lambda>c. c \<in> set chars) (rstrip_chars chars s)"

definition py_take :: "int \<Rightarrow> 'a list \<Rightarrow> 'a list" where
  \<comment> \<open>the slice \<^verbatim>\<open>s[:k]\<close>; a negative \<^verbatim>\<open>k\<close> counts from the end\<close>
  "py_take k s = (if 0 \<le> k then take (nat k) s else take (length s - nat (- k)) s)"

definition contains :: "string \<Rightarrow> string \<Rightarrow> bool" where
  \<comment> \<open>\<^verbatim>\<open>sub in s\<close>\<close>
  "contains sub s \<longleftrightarrow> sublist sub s"

definition rsplit_space_head :: "string \<Rightarrow> string" where
  \<comment> \<open>\<^verbatim>\<open>s.rsplit(" ", 1)[0]\<close>: what stands before the last blank, all of \<^verbatim>\<open>s\<close> when it
      has none\<close>
  "rsplit_space_head s =
     (if CHR '' '' \<in> set s then rev (tl (dropWhile (\<lambda>c. c \<noteq> CHR '' '') (rev s))) else s)"

function collapse_ws :: "string \<Rightarrow> string" where
  \<comment> \<open>\<^verbatim>\<open>re.sub(r"\s+", " ", s)\<close>: every maximal run of whitespace becomes one blank\<close>
  "collapse_ws [] = []"
| "collapse_ws (c # cs) =
     (if isspace c then CHR '' '' # collapse_ws (dropWhile isspace cs)
      else c # collapse_ws cs)"
  by pat_completeness auto
termination
  by (relation "measure length") (auto simp: length_dropWhile_le less_Suc_eq_le)

definition normalize_ws :: "string \<Rightarrow> string" where
  \<comment> \<open>\<^verbatim>\<open>re.sub(r"\s+", " ", str(text or "")).strip()\<close>\<close>
  "normalize_ws text = strip (collapse_ws text)"

function alnum_runs :: "string \<Rightarrow> string list" where
  \<comment> \<open>\<^verbatim>\<open>re.findall(r"[a-z0-9]+", s)\<close>: the maximal runs of lower-case letters and digits,
      from left to right\<close>
  "alnum_runs [] = []"
| "alnum_runs (c # cs) =
     (if is_alnum_lc c
      then takeWhile is_alnum_lc (c # cs) # alnum_runs (dropWhile is_alnum_lc cs)
      else alnum_runs cs)"
  by pat_completeness auto
termination
  by (relation "measure length") (auto simp: length_dropWhile_le less_Suc_eq_le)

fun join :: "string \<Rightarrow> string list \<Rightarrow> string" where
  \<comment> \<open>\<^verbatim>\<open>sep.join(parts)\<close>\<close>
  "join sep [] = []"
| "join sep [x] = x"
| "join sep (x # y # ys) = x @ sep @ join sep (y # ys)"



subsection \<open>Bounded-length shaping\<close>

definition trim_to_max_chars :: "string \<Rightarrow> int \<Rightarrow> string" where
  "trim_to_max_chars text0 max_chars =
     (let text = normalize_ws text0 in
      if int (length text) \<le> max_chars then text
      else
        let clipped = rstrip (py_take max_chars text);
            clipped = (if CHR '' '' \<in> set clipped then rsplit_space_head clipped else clipped)
        in rstrip_chars '' ,;:-'' clipped)"

definition pad :: string where
  "pad = '' Stay updated with key risks, practical defenses, and actionable mitigation guidance.''"

text \<open>
  The padding loop of \<^verbatim>\<open>expand_to_min_chars\<close>:
  \<^verbatim>\<open>while len(text) < min_chars: text = f"{text}{pad[:min_chars - len(text)]}".strip()\<close>.
  Nothing in the source bounds the number of iterations, so the loop is a partial function:
  \<open>None\<close> stands for a loop that never exits.
\<close>

partial_function (option) pad_loop :: "string \<Rightarrow> int \<Rightarrow> string option" where
  "pad_loop text min_chars =
     (if int (length text) < min_chars
      then pad_loop (strip (text @ py_take (min_chars - int (length text)) pad)) min_chars
      else Some text)"

declare pad_loop.simps [code]

definition append_fallback :: "string \<Rightarrow> string \<Rightarrow> string" where
  \<comment> \<open>lines 320 to 322: the text that the padding loop starts from\<close>
  "append_fallback text fallback =
     (if fallback \<noteq> [] \<and> \<not> contains (lower fallback) (lower text)
      then strip (text @ (if text \<noteq> [] then '' '' else []) @ fallback)
      else text)"

definition expand_to_min_chars :: "string \<Rightarrow> int \<Rightarrow> int \<Rightarrow> string \<Rightarrow> string option" where
  "expand_to_min_chars text0 min_chars max_chars fallback0 =
     (let text = normalize_ws text0;
          fallback = normalize_ws fallback0
      in if min_chars \<le> int (length text) then Some (trim_to_max_chars text max_chars)
         else
           let text = append_fallback text fallback
           in map_option (\<lambda>t. trim_to_max_chars t max_chars) (pad_loop text min_chars))"

subsection \<open>Slugs\<close>

definition default_slug :: string where
  "default_slug = ''nepal-election-candidate-profile''"

definition trim_slug :: "string \<Rightarrow> int \<Rightarrow> string" where
  \<comment> \<open>\<^verbatim>\<open>cybersecurity_autopost.trim_slug(slug, max_chars=120)\<close>\<close>
  "trim_slug slug max_chars =
     (let normalized = join ''-'' (alnum_runs (lower (normalize_ws slug)));
          trimmed = strip_chars ''-'' (trim_to_max_chars normalized max_chars)
      in if trimmed \<noteq> [] then trimmed else default_slug)"

definition gemini_trim_slug :: "string \<Rightarrow> string" where
  \<comment> \<open>\<^verbatim>\<open>gemini_autopost.trim_slug(slug)\<close>\<close>
  "gemini_trim_slug slug =
     strip_chars ''-'' (take 120 (join ''-'' (alnum_runs (lower (normalize_ws slug)))))"

function kebab_match :: "string \<Rightarrow> bool" where
  \<comment> \<open>\<^verbatim>\<open>re.fullmatch(r"[a-z0-9]+(?:-[a-z0-9]+)*", s)\<close>: a non-empty run, then either the end
      or a hyphen and the same again\<close>
  "kebab_match s =
     (let run = takeWhile is_alnum_lc s; rest = dropWhile is_alnum_lc s
      in run \<noteq> [] \<and>
         (case rest of [] \<Rightarrow> True
          | c # more \<Rightarrow> c = CHR ''-'' \<and> kebab_match more))"
  by pat_completeness auto
termination
proof (relation "measure length")
  show "wf (measure length)" by simp
next
  fix s :: string and run rest c more
  assume "rest = dropWhile is_alnum_lc s" and "rest = c # more"
  then have "length (c # more) \<le> length s"
    using length_dropWhile_le[of is_alnum_lc s] by simp
  then show "(more, s) \<in> measure length" by simp
qed

section \<open>The draft\<close>

text \<open>
  The payload is the JSON object the generation service returns.  It is modelled with the
  types of the draft schema: text fields are strings, \<^verbatim>\<open>sources\<close>, \<^verbatim>\<open>key_facts\<close> and
  \<^verbatim>\<open>topic_keywords\<close> are lists, \<^verbatim>\<open>candidate_profile\<close> and \<^verbatim>\<open>seo\<close> are objects.  A key
  that is absent reads as the default its \<^verbatim>\<open>.get\<close> call supplies (the empty string, the
  empty list), so an absent text field is the empty string here.  Under this typing every
  \<^verbatim>\<open>isinstance\<close> test of the source succeeds, and \<^verbatim>\<open>str(x)\<close> is \<^verbatim>\<open>x\<close>.  The confidence of a
  fact is \<open>None\<close> when \<^verbatim>\<open>int(...)\<close> would reject the value.
\<close>

record source =
  url :: string
  domain :: string
  publisher :: string

record candidate_profile =
  candidate_name :: string
  election_name :: string
  election_date :: string
  party :: string
  constituency :: string
  current_position :: string
  short_bio :: string
  profile_source_url :: string
  profile_image_url :: string
  profile_image_source_url :: string

record seo_block =
  focus_keyphrase :: string
  meta_title :: string
  meta_description :: string
  seo_slug_hint :: string

record fact =
  confidence :: "int option"
  supporting_source_urls :: "string list"

record payload =
  status :: string
  reason :: string
  title :: string
  slug :: string
  excerpt :: string
  content_html :: string
  topic_keywords :: "string list"
  candidate_profile :: candidate_profile
  seo :: seo_block
  sources :: "source list"
  key_facts :: "fact list"

section \<open>SEO normalisation\<close>







definition gemini_normalize_seo_fields :: "payload \<Rightarrow> payload" where
  \<comment> \<open>\<^verbatim>\<open>gemini_autopost.normalize_seo_fields\<close>\<close>
  "gemini_normalize_seo_fields p =
     (if status p \<noteq> ''publish'' then p
      else
        let fk0 = normalize_ws (focus_keyphrase (seo p));
            fk = (if fk0 \<noteq> [] then fk0 else ''nepal election candidate'');
            seo1 = (seo p)\<lparr>focus_keyphrase := fk\<rparr>
        in p\<lparr>seo := seo1,
              slug := gemini_trim_slug (if slug p \<noteq> [] then slug p else fk)\<rparr>)"

section \<open>Duplicate detection\<close>

definition STOPWORDS :: "string set" where
  "STOPWORDS = set [''about'', ''after'', ''again'', ''against'', ''also'', ''and'', ''are'',
     ''been'', ''before'', ''being'', ''between'', ''could'', ''during'', ''from'', ''have'',
     ''into'', ''more'', ''most'', ''over'', ''that'', ''their'', ''them'', ''then'', ''there'',
     ''these'', ''they'', ''this'', ''through'', ''under'', ''using'', ''what'', ''when'',
     ''where'', ''which'', ''with'', ''your'']"

function blank_non_alnum :: "string \<Rightarrow> string" where
  \<comment> \<open>\<^verbatim>\<open>re.sub(r"[^a-z0-9]+", " ", s)\<close>: every maximal run of other characters becomes one
      blank\<close>
  "blank_non_alnum [] = []"
| "blank_non_alnum (c # cs) =
     (if is_alnum_lc c then c # blank_non_alnum cs
      else CHR '' '' # blank_non_alnum (dropWhile (\<lambda>d. \<not> is_alnum_lc d) cs))"
  by pat_completeness auto
termination
  by (relation "measure length") (auto simp: length_dropWhile_le less_Suc_eq_le)

definition normalize_title :: "string \<Rightarrow> string" where
  "normalize_title text = strip (collapse_ws (blank_non_alnum (lower text)))"

definition title_tokens :: "string \<Rightarrow> string set" where
  "title_tokens text =
     set (filter (\<lambda>token. 2 < length token \<and> token \<notin> STOPWORDS) (alnum_runs (lower text)))"

definition jaccard_similarity :: "string set \<Rightarrow> string set \<Rightarrow> rat" where
  \<comment> \<open>The source divides two integers in floating point; the quotient is kept exact here.\<close>
  "jaccard_similarity left right =
     (if left = {} \<or> right = {} then 0
      else let union = left \<union> right
           in if union = {} then 0
              else of_nat (card (left \<inter> right)) / of_nat (card union))"

definition normalize_candidate_name :: "string \<Rightarrow> string" where
  "normalize_candidate_name name = normalize_title name"

fun near_duplicate_scan :: "string \<Rightarrow> string set \<Rightarrow> string list \<Rightarrow> bool" where
  \<comment> \<open>the \<^verbatim>\<open>for existing in existing_titles\<close> loop of \<^verbatim>\<open>near_duplicate_title\<close>\<close>
  "near_duplicate_scan normalized_new new_tokens [] = False"
| "near_duplicate_scan normalized_new new_tokens (existing # rest) =
     (if normalized_new = normalize_title existing then True
      else if 72 / 100 \<le> jaccard_similarity new_tokens (title_tokens existing) then True
      else near_duplicate_scan normalized_new new_tokens rest)"

definition near_duplicate_title :: "string \<Rightarrow> string list \<Rightarrow> bool" where
  "near_duplicate_title new_title existing_titles =
     near_duplicate_scan (normalize_title new_title) (title_tokens new_title) existing_titles"

section \<open>Validation\<close>

text \<open>
  \<^verbatim>\<open>urllib.parse.urlparse\<close> belongs to the Python library, not to this repository: the
  function that maps a URL to its \<^verbatim>\<open>netloc\<close> is a parameter of everything that calls
  \<^verbatim>\<open>domain_from_url\<close>.
\<close>

definition domain_from_url :: "(string \<Rightarrow> string) \<Rightarrow> string \<Rightarrow> string" where
  "domain_from_url netloc u =
     (let host = strip (lower (netloc (strip u)))
      in if prefix ''www.'' host then drop 4 host else host)"

definition startswith :: "string \<Rightarrow> string \<Rightarrow> bool" where
  \<comment> \<open>\<^verbatim>\<open>s.startswith(p)\<close>\<close>
  "startswith s p \<longleftrightarrow> prefix p s"

definition prefix_ci :: "string \<Rightarrow> string \<Rightarrow> bool" where
  \<comment> \<open>a lower-case literal of a pattern compiled with \<^verbatim>\<open>re.IGNORECASE\<close>, matched at the
      start of \<^verbatim>\<open>s\<close>\<close>
  "prefix_ci lit s \<longleftrightarrow> prefix lit (lower (take (length lit) s))"

fun find_question_close :: "string \<Rightarrow> string option" where
  \<comment> \<open>the tail \<^verbatim>\<open>.*?\?</h3>\<close> of the FAQ pattern (with \<^verbatim>\<open>re.DOTALL\<close>): the text after the first
      \<^verbatim>\<open>?</h3>\<close>, if there is one\<close>
  "find_question_close [] = None"
| "find_question_close (c # cs) =
     (if prefix_ci ''?</h3>'' (c # cs) then Some (drop 6 (c # cs)) else find_question_close cs)"

definition h3_question_at :: "string \<Rightarrow> string option" where
  \<comment> \<open>\<^verbatim>\<open><h3[^>]*>.*?\?</h3>\<close> matched at the start of \<^verbatim>\<open>s\<close>: the text after the match\<close>
  "h3_question_at s =
     (if prefix_ci ''<h3'' s
      then (case dropWhile (\<lambda>c. c \<noteq> CHR ''>'') (drop 3 s) of
              [] \<Rightarrow> None
            | gt # body \<Rightarrow> find_question_close body)
      else None)"

function count_h3_questions :: "string \<Rightarrow> nat" where
  \<comment> \<open>\<^verbatim>\<open>len(re.findall(r"<h3[^>]*>.*?\?</h3>", s, flags=re.IGNORECASE | re.DOTALL))\<close>: the
      matches are taken from left to right and do not overlap\<close>
  "count_h3_questions [] = 0"
| "count_h3_questions (c # cs) =
     (case h3_question_at (c # cs) of
        Some rest \<Rightarrow> Suc (count_h3_questions rest)
      | None \<Rightarrow> count_h3_questions cs)"
  by pat_completeness auto
termination
proof (relation "measure length")
  show "wf (measure length)" by simp
next
  fix c :: char and cs :: string
  assume "h3_question_at (c # cs) = None"
  show "(cs, c # cs) \<in> measure length" by simp
next
  fix c :: char and cs rest :: string
  assume m: "h3_question_at (c # cs) = Some rest"
  have close: "find_question_close s = Some r \<Longrightarrow> length r < length s" for s r
    by (induction s) (auto split: if_splits)
  from m obtain gt body where
    d: "dropWhile (\<lambda>c. c \<noteq> CHR ''>'') (drop 3 (c # cs)) = gt # body" and
    f: "find_question_close body = Some rest"
    by (auto simp: h3_question_at_def split: if_splits list.splits)
  have "length (gt # body) \<le> length (drop 3 (c # cs))"
    unfolding d[symmetric] by (rule length_dropWhile_le)
  with close[OF f] show "(rest, c # cs) \<in> measure length" by simp
qed

datatype violation =
    StatusInvalid
  | SkipWithoutReason
  | MissingTitle
  | TitleTooShort
  | DuplicateTitle
  | SlugNotKebab
  | ExcerptTooShort
  | TooFewKeywords
  | ContentTooShort
  | ContentWithoutFaq
  | TooFewFaqQuestions
  | TooFewSources int nat
  | TooFewDomains int nat
  | CandidateNameTooShort
  | ElectionNameTooShort
  | ElectionNameWithoutNepal
  | WrongElectionDate
  | PartyTooShort
  | ConstituencyTooShort
  | CurrentPositionTooShort
  | ShortBioTooShort
  | ProfileSourceUrlInvalid
  | ProfileSourceUrlNotInSources
  | ProfileImageUrlInvalid
  | ProfileImageSourceUrlInvalid
  | CandidateAlreadyProfiled
  | TitleWithoutCandidate
  | ExcerptWithoutCandidate
  | ContentWithoutCandidate
  | KeyphraseTooShort
  | MetaTitleLength
  | MetaDescriptionLength
  | TitleWithoutKeyphrase
  | ExcerptWithoutKeyphrase
  | ContentWithoutKeyphrase
  | MetaTitleWithoutKeyphrase
  | MetaDescriptionWithoutKeyphrase
  | SlugWithoutKeyphrase
  | SlugHintMismatch
  | KeyFactsEmpty
  | FactConfidenceNotNumeric nat
  | FactTooFewUrls nat
  | FactLowConfidence nat int int

text \<open>
  A \<^typ>\<open>violation\<close> stands for one message that \<^verbatim>\<open>validate_payload\<close> appends to its
  \<^verbatim>\<open>errors\<close> list, in the order of the constructors above; the numbers that the message
  formats are the constructor's arguments (\<open>TooFewSources min_sources found\<close>,
  \<open>FactLowConfidence index confidence min_confidence\<close>).
\<close>

definition add_if :: "bool \<Rightarrow> violation \<Rightarrow> violation list \<Rightarrow> violation list" where
  \<comment> \<open>\<^verbatim>\<open>if cond: errors.append(v)\<close>\<close>
  "add_if cond v errors = (if cond then errors @ [v] else errors)"

fun key_facts_scan :: "int \<Rightarrow> nat \<Rightarrow> fact list \<Rightarrow> violation list \<Rightarrow> violation list" where
  \<comment> \<open>the \<^verbatim>\<open>for index, fact in enumerate(key_facts, start=1)\<close> loop\<close>
  "key_facts_scan min_confidence index [] errors = errors"
| "key_facts_scan min_confidence index (f # rest) errors =
     (case confidence f of
        None \<Rightarrow>
          key_facts_scan min_confidence (Suc index) rest
            (errors @ [FactConfidenceNotNumeric index])
      | Some c \<Rightarrow>
          key_facts_scan min_confidence (Suc index) rest
            (add_if (c < min_confidence) (FactLowConfidence index c min_confidence)
               (add_if (length (supporting_source_urls f) < 2) (FactTooFewUrls index) errors)))"

definition source_urls :: "source list \<Rightarrow> string set" where
  \<comment> \<open>the set comprehension bound to \<^verbatim>\<open>source_urls\<close>\<close>
  "source_urls srcs =
     set (filter (\<lambda>u. startswith u ''http'') (map (\<lambda>s. strip (url s)) srcs))"

definition source_domain :: "(string \<Rightarrow> string) \<Rightarrow> source \<Rightarrow> string" where
  \<comment> \<open>\<^verbatim>\<open>str(source.get("domain", "")).strip().lower() or domain_from_url(str(source.get("url", "")))\<close>\<close>
  "source_domain netloc s =
     (let d = lower (strip (domain s))
      in if d \<noteq> [] then d else domain_from_url netloc (url s))"

definition unique_domains :: "(string \<Rightarrow> string) \<Rightarrow> source list \<Rightarrow> string set" where
  \<comment> \<open>the two set comprehensions bound to \<^verbatim>\<open>unique_domains\<close>\<close>
  "unique_domains netloc srcs =
     Set.filter (\<lambda>d. d \<noteq> []) (set (map (source_domain netloc) srcs))"

definition candidate_tokens :: "string \<Rightarrow> string set" where
  \<comment> \<open>\<^verbatim>\<open>{token for token in title_tokens(candidate_name) if len(token) >= 3}\<close>\<close>
  "candidate_tokens cname = Set.filter (\<lambda>token. 3 \<le> length token) (title_tokens cname)"

definition tokens_in :: "string set \<Rightarrow> string \<Rightarrow> nat" where
  \<comment> \<open>\<^verbatim>\<open>len([token for token in candidate_tokens if token in text])\<close>\<close>
  "tokens_in tokens text = card (Set.filter (\<lambda>token. contains token text) tokens)"

definition validate_payload ::
  "(string \<Rightarrow> string) \<Rightarrow> payload \<Rightarrow> string list \<Rightarrow> string list \<Rightarrow> int \<Rightarrow> int \<Rightarrow> violation list"
where
  \<comment> \<open>\<^verbatim>\<open>cybersecurity_autopost.validate_payload(payload, existing_titles=...,
      existing_candidates=..., min_sources=..., min_confidence=...)\<close>\<close>
  "validate_payload netloc p existing_titles existing_candidates min_sources min_confidence =
     (if status p \<notin> {''publish'', ''skip''} then [StatusInvalid]
      else if status p = ''skip''
      then (if strip (reason p) = [] then [SkipWithoutReason] else [])
      else
        let errors = [];
            title' = strip (title p);
            errors = (if title' = [] then errors @ [MissingTitle]
                      else if length title' < 24 then errors @ [TitleTooShort]
                      else if near_duplicate_title title' existing_titles
                      then errors @ [DuplicateTitle]
                      else errors);
            slug' = strip (slug p);
            errors = add_if (\<not> kebab_match slug') SlugNotKebab errors;
            excerpt' = strip (excerpt p);
            errors = add_if (length excerpt' < 110) ExcerptTooShort errors;
            errors = add_if (length (topic_keywords p) < 3) TooFewKeywords errors;
            content = strip (content_html p);
            errors = add_if (length content < 1800) ContentTooShort errors;
            content_lower = lower content;
            errors = add_if (\<not> contains ''faq'' content_lower) ContentWithoutFaq errors;
            faq_question_count = count_h3_questions content;
            errors = add_if (faq_question_count < 3) TooFewFaqQuestions errors;
            srcs = sources p;
            errors = add_if (int (length srcs) < min_sources)
                       (TooFewSources min_sources (length srcs)) errors;
            urls = source_urls srcs;
            domains = unique_domains netloc srcs;
            errors = add_if (int (card domains) < min_sources)
                       (TooFewDomains min_sources (card domains)) errors;
            profile = candidate_profile p;
            cname = normalize_ws (candidate_name profile);
            ename = normalize_ws (election_name profile);
            edate = normalize_ws (election_date profile);
            party' = normalize_ws (party profile);
            constituency' = normalize_ws (constituency profile);
            position = normalize_ws (current_position profile);
            bio = normalize_ws (short_bio profile);
            psu = normalize_ws (profile_source_url profile);
            image_url = normalize_ws (profile_image_url profile);
            image_source_url = normalize_ws (profile_image_source_url profile);
            errors = add_if (length cname < 4) CandidateNameTooShort errors;
            errors = add_if (length ename < 8) ElectionNameTooShort errors;
            errors = add_if (\<not> contains ''nepal'' (lower ename)) ElectionNameWithoutNepal errors;
            errors = add_if (edate \<noteq> ''2026-03-05'') WrongElectionDate errors;
            errors = add_if (length party' < 2) PartyTooShort errors;
            errors = add_if (length constituency' < 2) ConstituencyTooShort errors;
            errors = add_if (length position < 2) CurrentPositionTooShort errors;
            errors = add_if (length bio < 60) ShortBioTooShort errors;
            errors = add_if (\<not> startswith psu ''http'') ProfileSourceUrlInvalid errors;
            errors = (if psu \<noteq> []
                      then let normalized_source_urls = (\<lambda>u. rstrip_chars ''/'' u) ` urls
                           in add_if (rstrip_chars ''/'' psu \<notin> normalized_source_urls
                                      \<and> domain_from_url netloc psu \<notin> domains)
                                ProfileSourceUrlNotInSources errors
                      else errors);
            errors = add_if (image_url \<noteq> [] \<and> \<not> startswith image_url ''http'')
                       ProfileImageUrlInvalid errors;
            errors = add_if (image_source_url \<noteq> [] \<and> \<not> startswith image_source_url ''http'')
                       ProfileImageSourceUrlInvalid errors;
            existing_candidate_set = normalize_candidate_name ` set existing_candidates;
            errors = add_if (cname \<noteq> [] \<and> normalize_candidate_name cname \<in> existing_candidate_set)
                       CandidateAlreadyProfiled errors;
            tokens = candidate_tokens cname;
            errors = (if tokens \<noteq> {}
                      then
                        let errors = add_if (tokens_in tokens (lower title') < 1)
                                       TitleWithoutCandidate errors;
                            errors = add_if (tokens_in tokens (lower excerpt') < 1)
                                       ExcerptWithoutCandidate errors
                        in add_if (tokens_in tokens content_lower < 2)
                             ContentWithoutCandidate errors
                      else errors);
            seo' = seo p;
            fk = lower (strip (focus_keyphrase seo'));
            mt = strip (meta_title seo');
            md = strip (meta_description seo');
            hint = lower (strip (seo_slug_hint seo'));
            errors = add_if (length fk < 8) KeyphraseTooShort errors;
            errors = add_if (\<not> (45 \<le> length mt \<and> length mt \<le> 65)) MetaTitleLength errors;
            errors = add_if (\<not> (130 \<le> length md \<and> length md \<le> 170)) MetaDescriptionLength errors;
            focus_slug = join ''-'' (alnum_runs fk);
            errors = (if fk \<noteq> []
                      then
                        let errors = add_if (\<not> contains fk (lower title'))
                                       TitleWithoutKeyphrase errors;
                            errors = add_if (\<not> contains fk (lower excerpt'))
                                       ExcerptWithoutKeyphrase errors;
                            errors = add_if (\<not> contains fk content_lower)
                                       ContentWithoutKeyphrase errors;
                            errors = add_if (\<not> contains fk (lower mt))
                                       MetaTitleWithoutKeyphrase errors;
                            errors = add_if (\<not> contains fk (lower md))
                                       MetaDescriptionWithoutKeyphrase errors
                        in add_if (focus_slug \<noteq> [] \<and> \<not> contains focus_slug slug')
                             SlugWithoutKeyphrase errors
                      else errors);
            normalized_hint = join ''-'' (alnum_runs hint);
            errors = add_if (normalized_hint \<noteq> [] \<and> normalized_hint \<noteq> slug')
                       SlugHintMismatch errors
        in if key_facts p = [] then errors @ [KeyFactsEmpty]
           else key_facts_scan min_confidence 1 (key_facts p) errors)"

definition gemini_domain_from_url :: "(string \<Rightarrow> string) \<Rightarrow> string \<Rightarrow> string" where
  "gemini_domain_from_url netloc u =
     (let host = strip (lower (netloc (strip u)))
      in if prefix ''www.'' host then drop 4 host else host)"

datatype gemini_violation =
    SkipReasonMissing
  | CandidateAlreadyExists
  | NotEnoughUniqueSources nat

definition gemini_validate_payload ::
  "(string \<Rightarrow> string) \<Rightarrow> payload \<Rightarrow> string list \<Rightarrow> string list \<Rightarrow> int \<Rightarrow> gemini_violation list"
where
  \<comment> \<open>\<^verbatim>\<open>gemini_autopost.validate_payload(payload, titles, candidates, min_sources)\<close>;
      \<open>NotEnoughUniqueSources n\<close> carries the \<^verbatim>\<open>len(srcs)\<close> that the message prints\<close>
  "gemini_validate_payload netloc p titles candidates min_sources =
     (if status p = ''skip''
      then (if reason p = [] then [SkipReasonMissing] else [])
      else
        let cand_name = lower (candidate_name (candidate_profile p));
            errs = (if list_ex (\<lambda>c. contains cand_name (lower c)) candidates
                    then [CandidateAlreadyExists] else []);
            srcs = sources p
        in if int (card (set (map (\<lambda>s. gemini_domain_from_url netloc (url s)) srcs))) < min_sources
           then errs @ [NotEnoughUniqueSources (length srcs)]
           else errs)"

section \<open>Run coordination\<close>

subsection \<open>The generation call of \<^verbatim>\<open>gemini_autopost.py\<close> and its retry loop\<close>

text \<open>
  The service is what \<^verbatim>\<open>client.models.generate_content\<close> does at each call: the call
  number \<open>k\<close> (from 0) either returns a response with the text \<open>t\<close>, or raises
  \<^verbatim>\<open>errors.ClientError\<close> with a code, or raises something else.  \<^verbatim>\<open>json.loads\<close> is a
  parameter; it yields \<open>None\<close> where it raises.  The log records every \<^verbatim>\<open>time.sleep\<close> and
  counts the calls made.
\<close>

datatype outcome = Response string | ClientError int | OtherException

datatype gemini_error = RateLimitExceeded | ApiError int | UnexpectedError

datatype 'j gemini_result = Returned 'j | Raised gemini_error | FellThrough

record gemini_log =
  waits :: "int list"
  calls :: nat

definition max_retries :: int where
  "max_retries = 3"

definition base_wait :: int where
  "base_wait = 30"

fun attempts ::
  "(string \<Rightarrow> 'j option) \<Rightarrow> (nat \<Rightarrow> outcome) \<Rightarrow> nat list \<Rightarrow> gemini_log \<Rightarrow> 'j gemini_result \<times> gemini_log"
where
  \<comment> \<open>\<^verbatim>\<open>for attempt in range(max_retries): try: ... except ...\<close>\<close>
  "attempts loads service [] journal = (FellThrough, journal)"
| "attempts loads service (attempt # rest) journal =
     (let journal = journal\<lparr>calls := Suc (calls journal)\<rparr>
      in case service attempt of
           Response text \<Rightarrow>
             (if text = [] then (Raised UnexpectedError, journal)
              else case loads text of
                     Some draft \<Rightarrow> (Returned draft, journal)
                   | None \<Rightarrow> (Raised UnexpectedError, journal))
         | ClientError code \<Rightarrow>
             (if code = 429
              then (if int attempt < max_retries - 1
                    then attempts loads service rest
                           (journal\<lparr>waits := waits journal @ [base_wait * (int attempt + 1)]\<rparr>)
                    else (Raised RateLimitExceeded, journal))
              else (Raised (ApiError code), journal))
         | OtherException \<Rightarrow> (Raised UnexpectedError, journal))"

definition run_gemini ::
  "(string \<Rightarrow> 'j option) \<Rightarrow> (nat \<Rightarrow> outcome) \<Rightarrow> 'j gemini_result \<times> gemini_log"
where
  \<comment> \<open>the retry part of \<^verbatim>\<open>run_gemini\<close>, lines 118 to 149\<close>
  "run_gemini loads service =
     attempts loads service [0..<nat max_retries] \<lparr>waits = [], calls = 0\<rparr>"

definition verdict :: "(string \<Rightarrow> 'j option) \<Rightarrow> outcome \<Rightarrow> 'j gemini_result" where
  \<comment> \<open>what the call that ends the loop makes of its outcome\<close>
  "verdict loads out =
     (case out of
        Response txt \<Rightarrow>
          (if txt = [] then Raised UnexpectedError
           else case loads txt of Some d \<Rightarrow> Returned d | None \<Rightarrow> Raised UnexpectedError)
      | ClientError code \<Rightarrow> (if code = 429 then Raised RateLimitExceeded else Raised (ApiError code))
      | OtherException \<Rightarrow> Raised UnexpectedError)"

subsection \<open>The lock and the run of \<^verbatim>\<open>cybersecurity_autopost.py\<close>\<close>




record args =
  min_sources :: int
  min_confidence :: int
  dry_run :: bool
  stale_lock_minutes :: int







section \<open>Predicates used in the proofs\<close>

text \<open>
  A string is a fixed point of \<^verbatim>\<open>normalize_ws\<close> when every whitespace character in it is a
  single blank between two other characters: \<open>ws_single\<close> says that whitespace is a blank
  not followed by whitespace, \<open>edged\<close> that the string neither starts nor ends with
  whitespace.
\<close>

fun ws_single :: "string \<Rightarrow> bool" where
  "ws_single [] = True"
| "ws_single [c] = (isspace c \<longrightarrow> c = CHR '' '')"
| "ws_single (c # d # cs) = ((isspace c \<longrightarrow> c = CHR '' '' \<and> \<not> isspace d) \<and> ws_single (d # cs))"

definition edged :: "string \<Rightarrow> bool" where
  "edged s \<longleftrightarrow> s = [] \<or> (\<not> isspace (hd s) \<and> \<not> isspace (last s))"

text \<open>
  A kebab-case string is a non-empty string of lower-case letters, digits and hyphens that
  starts and ends with a letter or digit and has no two hyphens in a row (\<open>kebab\<close>);
  \<open>slugish\<close> drops the conditions on the two ends.
\<close>

definition slug_char :: "char \<Rightarrow> bool" where
  "slug_char c \<longleftrightarrow> is_alnum_lc c \<or> c = CHR ''-''"

fun slugish :: "string \<Rightarrow> bool" where
  "slugish [] = True"
| "slugish [c] = slug_char c"
| "slugish (c # d # cs) = (slug_char c \<and> \<not> (c = CHR ''-'' \<and> d = CHR ''-'') \<and> slugish (d # cs))"

definition kebab :: "string \<Rightarrow> bool" where
  "kebab s \<longleftrightarrow> s \<noteq> [] \<and> slugish s \<and> is_alnum_lc (hd s) \<and> is_alnum_lc (last s)"


section \<open>The rule table\<close>



section \<open>Sample drafts\<close>

definition blank_profile :: candidate_profile where
  "blank_profile = \<lparr>candidate_name = [], election_name = [], election_date = [], party = [],
     constituency = [], current_position = [], short_bio = [], profile_source_url = [],
     profile_image_url = [], profile_image_source_url = []\<rparr>"

definition blank_seo :: seo_block where
  "blank_seo = \<lparr>focus_keyphrase = [], meta_title = [], meta_description = [],
     seo_slug_hint = []\<rparr>"

definition skip_draft :: payload where
  \<comment> \<open>a skip response as the prompt asks for it: every field present, with empty values\<close>
  "skip_draft = \<lparr>status = ''skip'', reason = [], title = [], slug = [], excerpt = [],
     content_html = [], topic_keywords = [], candidate_profile = blank_profile, seo = blank_seo,
     sources = [], key_facts = []\<rparr>"

text \<open>
  A candidate profile as the prompt asks for it, for the scenarios of the specification:
  scenario A has 15 sources on 15 domains, scenario B the same 15 sources on 5 domains.
\<close>

fun after_double_slash :: "string \<Rightarrow> string option" where
  "after_double_slash (c # d # cs) =
     (if c = CHR ''/'' \<and> d = CHR ''/'' then Some cs else after_double_slash (d # cs))"
| "after_double_slash cs = None"

definition url_authority :: "string \<Rightarrow> string" where
  \<comment> \<open>what \<^verbatim>\<open>urlparse(u).netloc\<close> is for a URL of the shape \<^verbatim>\<open>scheme://authority/path\<close>: the
      text between the double slash and the next slash, question mark or hash; the sample
      runs pass it for the library function\<close>
  "url_authority u =
     (case after_double_slash u of
        None \<Rightarrow> []
      | Some rest \<Rightarrow> takeWhile (\<lambda>c. c \<notin> set ''/?#'') rest)"

definition sample_faq :: string where
  "sample_faq =
     ''<h2>Balen Shah candidate profile: FAQ</h2><h3>Who is Balen Shah?</h3><p>He is th'' @
     ''e mayor of Kathmandu and a candidate in the 2026 election.</p><h3>When is the el'' @
     ''ection?</h3><p>Nepal votes on 5 March 2026.</p><h3>Which party does he belong to'' @
     ''?</h3><p>He ran for mayor as an independent.</p>''"

definition sample_paragraph :: string where
  "sample_paragraph =
     ''<p>Balen Shah is an engineer, rapper and politician who was elected mayor of Kat'' @
     ''hmandu in 2022 as an independent candidate. This profile follows his background,'' @
     '' his political career, his policy positions and the criticism he has drawn befor'' @
     ''e the election of 5 March 2026.</p>''"

definition sample_content :: string where
  \<comment> \<open>1938 characters: the FAQ block and six paragraphs\<close>
  "sample_content = sample_faq @ sample_paragraph @ sample_paragraph @ sample_paragraph @ sample_paragraph @ sample_paragraph @ sample_paragraph"

definition sample_profile :: candidate_profile where
  "sample_profile = \<lparr>candidate_name = ''Balen Shah'',
     election_name = ''Nepal general election 2026'', election_date = ''2026-03-05'',
     party = ''Independent'', constituency = ''Kathmandu'',
     current_position = ''Mayor of Kathmandu'',
     short_bio = ''Engineer and rapper who became mayor of Kathmandu in 2022 as an independent.'',
     profile_source_url = ''https://site01.example.org/balen-shah/1'',
     profile_image_url = [], profile_image_source_url = []\<rparr>"

definition sample_seo :: seo_block where
  \<comment> \<open>a meta title of 50 and a meta description of 150 characters\<close>
  "sample_seo = \<lparr>focus_keyphrase = ''balen shah candidate profile'',
     meta_title = ''Balen Shah Candidate Profile: Nepal Election 2026.'',
     meta_description =
       ''Balen Shah candidate profile for the Nepal election on 5 March 2026: background,'' @
       '' career timeline, key policy positions, critics and electoral outlook.'',
     seo_slug_hint = ''balen-shah-candidate-profile-nepal-election-2026''\<rparr>"

definition sources_15_domains :: "source list" where
  "sources_15_domains =
     [\<lparr>url = ''https://site01.example.org/balen-shah/1'', domain = ''site01.example.org'', publisher = ''Site 1''\<rparr>,
      \<lparr>url = ''https://site02.example.org/balen-shah/2'', domain = ''site02.example.org'', publisher = ''Site 2''\<rparr>,
      \<lparr>url = ''https://site03.example.org/balen-shah/3'', domain = ''site03.example.org'', publisher = ''Site 3''\<rparr>,
      \<lparr>url = ''https://site04.example.org/balen-shah/4'', domain = ''site04.example.org'', publisher = ''Site 4''\<rparr>,
      \<lparr>url = ''https://site05.example.org/balen-shah/5'', domain = ''site05.example.org'', publisher = ''Site 5''\<rparr>,
      \<lparr>url = ''https://site06.example.org/balen-shah/6'', domain = ''site06.example.org'', publisher = ''Site 6''\<rparr>,
      \<lparr>url = ''https://site07.example.org/balen-shah/7'', domain = ''site07.example.org'', publisher = ''Site 7''\<rparr>,
      \<lparr>url = ''https://site08.example.org/balen-shah/8'', domain = ''site08.example.org'', publisher = ''Site 8''\<rparr>,
      \<lparr>url = ''https://site09.example.org/balen-shah/9'', domain = ''site09.example.org'', publisher = ''Site 9''\<rparr>,
      \<lparr>url = ''https://site10.example.org/balen-shah/10'', domain = ''site10.example.org'', publisher = ''Site 10''\<rparr>,
      \<lparr>url = ''https://site11.example.org/balen-shah/11'', domain = ''site11.example.org'', publisher = ''Site 11''\<rparr>,
      \<lparr>url = ''https://site12.example.org/balen-shah/12'', domain = ''site12.example.org'', publisher = ''Site 12''\<rparr>,
      \<lparr>url = ''https://site13.example.org/balen-shah/13'', domain = ''site13.example.org'', publisher = ''Site 13''\<rparr>,
      \<lparr>url = ''https://site14.example.org/balen-shah/14'', domain = ''site14.example.org'', publisher = ''Site 14''\<rparr>,
      \<lparr>url = ''https://site15.example.org/balen-shah/15'', domain = ''site15.example.org'', publisher = ''Site 15''\<rparr>]"

definition sources_5_domains :: "source list" where
  "sources_5_domains =
     [\<lparr>url = ''https://site01.example.org/balen-shah/1'', domain = ''site01.example.org'', publisher = ''Site 1''\<rparr>,
      \<lparr>url = ''https://site02.example.org/balen-shah/2'', domain = ''site02.example.org'', publisher = ''Site 2''\<rparr>,
      \<lparr>url = ''https://site03.example.org/balen-shah/3'', domain = ''site03.example.org'', publisher = ''Site 3''\<rparr>,
      \<lparr>url = ''https://site04.example.org/balen-shah/4'', domain = ''site04.example.org'', publisher = ''Site 4''\<rparr>,
      \<lparr>url = ''https://site05.example.org/balen-shah/5'', domain = ''site05.example.org'', publisher = ''Site 5''\<rparr>,
      \<lparr>url = ''https://site01.example.org/balen-shah/6'', domain = ''site01.example.org'', publisher = ''Site 6''\<rparr>,
      \<lparr>url = ''https://site02.example.org/balen-shah/7'', domain = ''site02.example.org'', publisher = ''Site 7''\<rparr>,
      \<lparr>url = ''https://site03.example.org/balen-shah/8'', domain = ''site03.example.org'', publisher = ''Site 8''\<rparr>,
      \<lparr>url = ''https://site04.example.org/balen-shah/9'', domain = ''site04.example.org'', publisher = ''Site 9''\<rparr>,
      \<lparr>url = ''https://site05.example.org/balen-shah/10'', domain = ''site05.example.org'', publisher = ''Site 10''\<rparr>,
      \<lparr>url = ''https://site01.example.org/balen-shah/11'', domain = ''site01.example.org'', publisher = ''Site 11''\<rparr>,
      \<lparr>url = ''https://site02.example.org/balen-shah/12'', domain = ''site02.example.org'', publisher = ''Site 12''\<rparr>,
      \<lparr>url = ''https://site03.example.org/balen-shah/13'', domain = ''site03.example.org'', publisher = ''Site 13''\<rparr>,
      \<lparr>url = ''https://site04.example.org/balen-shah/14'', domain = ''site04.example.org'', publisher = ''Site 14''\<rparr>,
      \<lparr>url = ''https://site05.example.org/balen-shah/15'', domain = ''site05.example.org'', publisher = ''Site 15''\<rparr>]"

definition sample_draft :: "string \<Rightarrow> source list \<Rightarrow> payload" where
  \<comment> \<open>a candidate profile that meets every rule, with the body and the sources left open\<close>
  "sample_draft body srcs = \<lparr>status = ''publish'', reason = [],
     title = ''Balen Shah candidate profile for the Nepal election 2026'',
     slug = ''balen-shah-candidate-profile-nepal-election-2026'',
     excerpt =
       ''Balen Shah candidate profile: background, political career, policy positions and'' @
       '' electoral outlook ahead of the Nepal election on 5 March 2026.'',
     content_html = body,
     topic_keywords = [''Balen Shah'', ''Kathmandu'', ''Nepal election 2026''],
     candidate_profile = sample_profile, seo = sample_seo,
     sources = srcs,
     key_facts = [\<lparr>confidence = Some 90,
                   supporting_source_urls = [''https://site01.example.org/balen-shah/1'',
                                             ''https://site02.example.org/balen-shah/2'']\<rparr>]\<rparr>"

definition scenario_a :: payload where
  "scenario_a = sample_draft sample_content sources_15_domains"

definition scenario_b :: payload where
  "scenario_b = sample_draft sample_content sources_5_domains"



definition sample_titles :: "string list" where
  "sample_titles = [''Nepal election 2026: what voters should know'']"

definition sample_candidates :: "string list" where
  "sample_candidates = [''Rabi Lamichhane'']"





section \<open>Properties of the string functions\<close>

lemma isspace_blank [simp]: "isspace CHR '' ''"
  by (simp add: isspace_def)

lemma length_rstrip_le: "length (rstrip s) \<le> length s"
  using length_dropWhile_le[of isspace "rev s"] by (simp add: rstrip_def)

lemma length_lstrip_le: "length (lstrip s) \<le> length s"
  by (simp add: lstrip_def length_dropWhile_le)

lemma length_strip_le: "length (strip s) \<le> length s"
  using length_lstrip_le[of "rstrip s"] length_rstrip_le[of s] by (simp add: strip_def)

lemma length_rstrip_chars_le: "length (rstrip_chars cs s) \<le> length s"
  using length_dropWhile_le[of "\<lambda>c. c \<in> set cs" "rev s"] by (simp add: rstrip_chars_def)

lemma length_strip_chars_le: "length (strip_chars cs s) \<le> length s"
  using length_dropWhile_le[of "\<lambda>c. c \<in> set cs" "rstrip_chars cs s"] length_rstrip_chars_le[of cs s]
  by (simp add: strip_chars_def)

lemma length_rsplit_space_head_le: "length (rsplit_space_head s) \<le> length s"
proof -
  have "length (tl (dropWhile (\<lambda>c. c \<noteq> CHR '' '') (rev s))) \<le> length (rev s)"
    using length_dropWhile_le[of "\<lambda>c. c \<noteq> CHR '' ''" "rev s"] by simp
  then show ?thesis by (simp add: rsplit_space_head_def)
qed

lemma length_py_take_le: "0 \<le> k \<Longrightarrow> int (length (py_take k s)) \<le> k"
  by (simp add: py_take_def)

lemma length_trim_to_max_chars:
  assumes "0 \<le> mx"
  shows "int (length (trim_to_max_chars t mx)) \<le> mx"
proof (cases "int (length (normalize_ws t)) \<le> mx")
  case True
  then show ?thesis by (simp add: trim_to_max_chars_def)
next
  case False
  let ?c = "rstrip (py_take mx (normalize_ws t))"
  have c: "int (length ?c) \<le> mx"
    using length_rstrip_le[of "py_take mx (normalize_ws t)"] length_py_take_le[OF assms, of "normalize_ws t"]
    by linarith
  have "int (length (rsplit_space_head ?c)) \<le> mx"
    using length_rsplit_space_head_le[of ?c] c by linarith
  with c have "int (length (if CHR '' '' \<in> set ?c then rsplit_space_head ?c else ?c)) \<le> mx"
    by simp
  then have "int (length (rstrip_chars '' ,;:-'' (if CHR '' '' \<in> set ?c then rsplit_space_head ?c else ?c))) \<le> mx"
    using length_rstrip_chars_le[of "'' ,;:-''" "if CHR '' '' \<in> set ?c then rsplit_space_head ?c else ?c"]
    by linarith
  with False show ?thesis by (simp add: trim_to_max_chars_def Let_def)
qed


lemma ws_single_append_left: "ws_single (a @ b) \<Longrightarrow> ws_single a"
  by (induction a rule: ws_single.induct) (auto split: if_splits, (cases b; simp)+)

lemma ws_single_Cons_tail: "ws_single (c # cs) \<Longrightarrow> ws_single cs"
  by (cases cs) auto

lemma ws_single_append_right: "ws_single (a @ b) \<Longrightarrow> ws_single b"
  by (induction a) (auto dest: ws_single_Cons_tail)

lemma ws_single_take: "ws_single s \<Longrightarrow> ws_single (take n s)"
  using ws_single_append_left[of "take n s" "drop n s"] by simp

lemma ws_single_drop: "ws_single s \<Longrightarrow> ws_single (drop n s)"
  using ws_single_append_right[of "take n s" "drop n s"] by simp

lemma ws_single_dropWhile: "ws_single s \<Longrightarrow> ws_single (dropWhile P s)"
  using ws_single_append_right[of "takeWhile P s" "dropWhile P s"] by simp

lemma rstrip_prefix: "\<exists>z. s = rstrip s @ z \<and> (\<forall>c \<in> set z. isspace c)"
proof -
  have "rev s = takeWhile isspace (rev s) @ dropWhile isspace (rev s)" by simp
  then have "s = rev (dropWhile isspace (rev s)) @ rev (takeWhile isspace (rev s))"
    by (metis rev_append rev_rev_ident)
  moreover have "\<forall>c \<in> set (rev (takeWhile isspace (rev s))). isspace c"
    by (auto dest: set_takeWhileD)
  ultimately show ?thesis unfolding rstrip_def by blast
qed

lemma rstrip_chars_prefix: "\<exists>z. s = rstrip_chars cs s @ z \<and> (\<forall>c \<in> set z. c \<in> set cs)"
proof -
  let ?P = "\<lambda>c. c \<in> set cs"
  have "rev s = takeWhile ?P (rev s) @ dropWhile ?P (rev s)" by simp
  then have "s = rev (dropWhile ?P (rev s)) @ rev (takeWhile ?P (rev s))"
    by (metis rev_append rev_rev_ident)
  moreover have "\<forall>c \<in> set (rev (takeWhile ?P (rev s))). ?P c"
    by (auto dest: set_takeWhileD)
  ultimately show ?thesis unfolding rstrip_chars_def by blast
qed

lemma ws_single_rstrip: "ws_single s \<Longrightarrow> ws_single (rstrip s)"
  using rstrip_prefix[of s] ws_single_append_left by metis

lemma ws_single_rstrip_chars: "ws_single s \<Longrightarrow> ws_single (rstrip_chars cs s)"
  using rstrip_chars_prefix[of s cs] ws_single_append_left by metis

lemma ws_single_strip: "ws_single s \<Longrightarrow> ws_single (strip s)"
  by (simp add: strip_def lstrip_def ws_single_dropWhile ws_single_rstrip)

lemma ws_single_append:
  "ws_single a \<Longrightarrow> ws_single b \<Longrightarrow> a = [] \<or> b = [] \<or> \<not> isspace (last a) \<or> \<not> isspace (hd b)
   \<Longrightarrow> ws_single (a @ b)"
proof (induction a rule: ws_single.induct)
  case 1
  then show ?case by simp
next
  case (2 c)
  then show ?case by (cases b) auto
next
  case (3 c d cs)
  then show ?case by auto
qed

lemma hd_collapse_ws: "s \<noteq> [] \<Longrightarrow> \<not> isspace (hd s) \<Longrightarrow> hd (collapse_ws s) = hd s"
  by (cases s) auto

lemma collapse_ws_Nil_iff [simp]: "collapse_ws s = [] \<longleftrightarrow> s = []"
  by (cases s) auto

lemma ws_single_collapse_ws: "ws_single (collapse_ws s)"
proof (induction s rule: collapse_ws.induct)
  case 1
  then show ?case by simp
next
  case (2 c cs)
  show ?case
  proof (cases "isspace c")
    case True
    let ?r = "dropWhile isspace cs"
    have r: "?r = [] \<or> \<not> isspace (hd ?r)"
      using hd_dropWhile[of isspace cs] by blast
    from 2(1)[OF True] have w: "ws_single (collapse_ws ?r)" .
    show ?thesis
    proof (cases "collapse_ws ?r")
      case Nil
      have "collapse_ws (c # cs) = CHR '' '' # collapse_ws ?r" using True by simp
      also have "\<dots> = [CHR '' '']" by (simp only: Nil)
      finally show ?thesis by simp
    next
      case (Cons x xs)
      have ne: "?r \<noteq> []"
      proof
        assume "?r = []"
        then have "collapse_ws ?r = []" by (simp only: collapse_ws.simps)
        with Cons show False by simp
      qed
      with r have h: "\<not> isspace (hd ?r)" by blast
      have "hd (collapse_ws ?r) = hd ?r" by (rule hd_collapse_ws[OF ne h])
      with Cons h have "\<not> isspace x" by simp
      moreover have "collapse_ws (c # cs) = CHR '' '' # x # xs"
        using True Cons by simp
      moreover have "ws_single (x # xs)" using w Cons by simp
      ultimately show ?thesis by simp
    qed
  next
    case False
    from 2(2)[OF False] have w: "ws_single (collapse_ws cs)" .
    with False show ?thesis by (cases "collapse_ws cs") auto
  qed
qed

lemma collapse_ws_fixed: "ws_single s \<Longrightarrow> collapse_ws s = s"
proof (induction s rule: ws_single.induct)
  case 1
  then show ?case by simp
next
  case (2 c)
  then show ?case by simp
next
  case (3 c d cs)
  then show ?case by auto
qed

lemma edged_strip: "edged (strip s)"
proof -
  let ?r = "rstrip s"
  have r: "?r = [] \<or> \<not> isspace (last ?r)"
    using hd_dropWhile[of isspace "rev s"] by (auto simp: rstrip_def last_rev)
  show ?thesis
  proof (cases "dropWhile isspace ?r = []")
    case True
    then show ?thesis by (simp add: edged_def strip_def lstrip_def)
  next
    case False
    then have h: "\<not> isspace (hd (dropWhile isspace ?r))" by (rule hd_dropWhile)
    from False have rn: "?r \<noteq> []" by auto
    have "last (dropWhile isspace ?r) = last ?r"
      using False by (metis last_appendR takeWhile_dropWhile_id)
    with r rn h False show ?thesis by (simp add: edged_def strip_def lstrip_def)
  qed
qed

lemma strip_fixed: "edged s \<Longrightarrow> strip s = s"
proof (cases s)
  case Nil
  then show ?thesis by (simp add: strip_def lstrip_def rstrip_def)
next
  case (Cons c cs)
  assume "edged s"
  with Cons have h: "\<not> isspace c" and l: "\<not> isspace (last s)" by (auto simp: edged_def)
  from l Cons have "dropWhile isspace (rev s) = rev s"
    by (cases "rev s") (auto simp: last_rev hd_rev[symmetric] elim: )
  then have "rstrip s = s" by (simp add: rstrip_def)
  with h Cons show ?thesis by (simp add: strip_def lstrip_def)
qed

lemma normalize_ws_normal: "ws_single (normalize_ws s) \<and> edged (normalize_ws s)"
  by (simp add: normalize_ws_def ws_single_strip ws_single_collapse_ws edged_strip)

lemma normalize_ws_fixed: "ws_single s \<Longrightarrow> edged s \<Longrightarrow> normalize_ws s = s"
  by (simp add: normalize_ws_def collapse_ws_fixed strip_fixed)

lemma normalize_ws_idem: "normalize_ws (normalize_ws s) = normalize_ws s"
  using normalize_ws_normal[of s] by (simp add: normalize_ws_fixed)


section \<open>Properties of the padding loop\<close>

lemma pad_loop_stuck_aux:
  assumes "pad_loop t m = Some y"
  shows "\<not> (int (length t) + 1 = m \<and> strip (t @ '' '') = t)"
proof (rule pad_loop.raw_induct
    [where P = "\<lambda>t m y. \<not> (int (length t) + 1 = m \<and> strip (t @ '' '') = t)"])
  fix f :: "string \<Rightarrow> int \<Rightarrow> string option" and t m y
  assume IH: "\<And>a b y. f a b = Some y \<Longrightarrow> \<not> (int (length a) + 1 = b \<and> strip (a @ '' '') = a)"
    and step: "(if int (length t) < m
                then f (strip (t @ py_take (m - int (length t)) pad)) m
                else Some t) = Some y"
  show "\<not> (int (length t) + 1 = m \<and> strip (t @ '' '') = t)"
  proof
    assume a: "int (length t) + 1 = m \<and> strip (t @ '' '') = t"
    then have "m - int (length t) = 1" by simp
    then have "py_take (m - int (length t)) pad = '' ''" by (simp add: py_take_def pad_def)
    with a step have "f t m = Some y" by simp
    from IH[OF this] a show False by simp
  qed
qed (fact assms)

text \<open>
  When exactly one character is missing, the loop appends the first character of the
  filler, which is a blank, and \<^verbatim>\<open>strip\<close> removes it again: the text never grows.
\<close>

lemma pad_loop_stuck:
  assumes "int (length t) + 1 = m" and "strip (t @ '' '') = t"
  shows "pad_loop t m = None"
proof (cases "pad_loop t m")
  case None
  then show ?thesis .
next
  case (Some y)
  from pad_loop_stuck_aux[OF this] assms show ?thesis by simp
qed

text \<open>
  Claim C3 says that the padding loop of \<^verbatim>\<open>expand_to_min_chars\<close> always terminates, so
  that the function is total.  The code does not: a meta title of 44 characters that
  already contains its fallback, expanded to the window from 45 to 65, enters the loop
  with one character missing and never leaves it.
\<close>

theorem expand_to_min_chars_diverges:
  "expand_to_min_chars ''Balen Shah candidate profile: Nepal election'' 45 65
     ''Balen Shah candidate profile: Nepal election'' = None"
proof -
  let ?t = "''Balen Shah candidate profile: Nepal election''"
  have n: "normalize_ws ?t = ?t"
    by (simp add: normalize_ws_def strip_def lstrip_def rstrip_def isspace_def)
  have s: "strip (?t @ '' '') = ?t"
    by (simp add: strip_def lstrip_def rstrip_def isspace_def)
  have l: "int (length ?t) + 1 = 45" by simp
  have "pad_loop ?t 45 = None" by (rule pad_loop_stuck[OF l s])
  then show ?thesis
    unfolding expand_to_min_chars_def append_fallback_def n Let_def contains_def by simp
qed

section \<open>The status gate\<close>

text \<open>
  Claim C5: a draft with status \<^verbatim>\<open>skip\<close> and an empty or missing reason yields exactly one
  violation, and no later rule is evaluated for a skip draft.  Both scripts return right
  after the reason check: whatever the other fields, the corpus and the thresholds are,
  the result is the one violation when the reason is empty and nothing otherwise.  (The
  first script strips the reason before the test, the second does not.)
\<close>

theorem skip_gate:
  assumes "status p = ''skip''"
  shows "validate_payload netloc p existing_titles existing_candidates min_src min_conf =
           (if strip (reason p) = [] then [SkipWithoutReason] else [])
       \<and> gemini_validate_payload netloc p existing_titles existing_candidates min_src =
           (if reason p = [] then [SkipReasonMissing] else [])"
  using assms by (simp add: validate_payload_def gemini_validate_payload_def)

theorem skip_gate_witness:
  "status skip_draft = ''skip'' \<and> reason skip_draft = [] \<and>
   validate_payload (\<lambda>u. u) skip_draft [''Some earlier title''] [''Somebody''] 12 85
     = [SkipWithoutReason] \<and>
   gemini_validate_payload (\<lambda>u. u) skip_draft [''Some earlier title''] [''Somebody''] 12
     = [SkipReasonMissing]"
  using skip_gate[of skip_draft "\<lambda>u. u" "[''Some earlier title'']" "[''Somebody'']" 12 85]
  by (simp add: skip_draft_def strip_def lstrip_def rstrip_def)

section \<open>The retry loop of the generation call\<close>

lemma upt_max_retries: "[0..<nat max_retries] = [0, 1, 2]"
  by (simp add: max_retries_def numeral_3_eq_3 upt_rec)

lemma attempts_final:
  "out \<noteq> ClientError 429 \<or> \<not> int k < max_retries - 1 \<Longrightarrow> service k = out \<Longrightarrow>
   attempts loads service (k # rest) j = (verdict loads out, j\<lparr>calls := Suc (calls j)\<rparr>)"
  by (cases out) (auto simp: verdict_def Let_def split: option.splits)

lemma attempts_retry:
  "service k = ClientError 429 \<Longrightarrow> int k < max_retries - 1 \<Longrightarrow>
   attempts loads service (k # rest) j =
     attempts loads service rest
       (j\<lparr>calls := Suc (calls j), waits := waits j @ [base_wait * (int k + 1)]\<rparr>)"
  by (simp add: Let_def)

lemma run_gemini_cases:
  "run_gemini loads service =
     (if service 0 \<noteq> ClientError 429
      then (verdict loads (service 0), \<lparr>waits = [], calls = 1\<rparr>)
      else if service 1 \<noteq> ClientError 429
      then (verdict loads (service 1), \<lparr>waits = [base_wait], calls = 2\<rparr>)
      else (verdict loads (service 2), \<lparr>waits = [base_wait, base_wait * 2], calls = 3\<rparr>))"
proof -
  have m: "int 0 < max_retries - 1" "int 1 < max_retries - 1" "\<not> int 2 < max_retries - 1"
    by (simp_all add: max_retries_def)
  show ?thesis
    unfolding run_gemini_def upt_max_retries
    using m attempts_final[of "service 0" 0 service loads] attempts_final[of "service 1" 1 service loads]
      attempts_final[of "service 2" 2 service loads]
      attempts_retry[of service 0 loads] attempts_retry[of service 1 loads]
    by (auto simp del: attempts.simps)
qed

text \<open>
  Claim C7: the generation call is retried only on a rate-limit signal (a client error
  with code 429), waiting \<open>base_wait * k\<close> before attempt \<open>k + 1\<close>, for at most three
  attempts; any other failure, and a third rate limit, is raised at once.  With \<open>n\<close> the
  number of calls made: \<open>n\<close> is between 1 and 3, the waits are
  \<open>base_wait * 1, ..., base_wait * (n - 1)\<close>, every call before the last was rate-limited,
  and the last call alone decides the result.  When the service rate-limits twice and then
  answers, the draft is returned after the two waits \<open>base_wait\<close> and \<open>2 * base_wait\<close>.
\<close>

theorem run_gemini_retry:
  fixes loads :: "string \<Rightarrow> 'j option" and service :: "nat \<Rightarrow> outcome"
  defines "r \<equiv> run_gemini loads service"
  defines "n \<equiv> calls (snd r)"
  shows "1 \<le> n \<and> int n \<le> max_retries
       \<and> waits (snd r) = map (\<lambda>k. base_wait * int k) [1..<n]
       \<and> (\<forall>k < n - 1. service k = ClientError 429)
       \<and> fst r \<noteq> FellThrough
       \<and> (case service (n - 1) of
            Response txt \<Rightarrow>
              fst r = (if txt = [] then Raised UnexpectedError
                       else case loads txt of Some d \<Rightarrow> Returned d | None \<Rightarrow> Raised UnexpectedError)
          | ClientError code \<Rightarrow>
              (if code = 429 then int n = max_retries \<and> fst r = Raised RateLimitExceeded
               else fst r = Raised (ApiError code))
          | OtherException \<Rightarrow> fst r = Raised UnexpectedError)
       \<and> (service 0 = ClientError 429 \<and> service 1 = ClientError 429
            \<and> service 2 = Response txt \<and> txt \<noteq> [] \<and> loads txt = Some d
          \<longrightarrow> r = (Returned d, \<lparr>waits = [base_wait, 2 * base_wait], calls = 3\<rparr>))"
proof -
  consider (a) "service 0 \<noteq> ClientError 429"
    | (b) "service 0 = ClientError 429" "service 1 \<noteq> ClientError 429"
    | (c) "service 0 = ClientError 429" "service 1 = ClientError 429"
    by blast
  then show ?thesis
  proof cases
    case a
    then have r: "r = (verdict loads (service 0), \<lparr>waits = [], calls = 1\<rparr>)"
      by (simp add: r_def run_gemini_cases)
    show ?thesis using a unfolding n_def r
      by (cases "service 0") (auto simp: verdict_def max_retries_def split: option.splits)
  next
    case b
    then have r: "r = (verdict loads (service 1), \<lparr>waits = [base_wait], calls = 2\<rparr>)"
      by (simp add: r_def run_gemini_cases)
    have u: "[Suc 0..<2] = [Suc 0]" by (simp add: upt_rec)
    show ?thesis using b unfolding n_def r
      by (cases "service 1") (auto simp: verdict_def max_retries_def u split: option.splits)
  next
    case c
    then have r: "r = (verdict loads (service 2), \<lparr>waits = [base_wait, base_wait * 2], calls = 3\<rparr>)"
      by (simp add: r_def run_gemini_cases)
    have u: "[Suc 0..<3] = [Suc 0, 2]" by (simp add: upt_rec)
    show ?thesis using c unfolding n_def r
      by (cases "service 2") (auto simp: verdict_def max_retries_def u less_Suc_eq numeral_2_eq_2 split: option.splits)
  qed
qed

theorem run_gemini_retry_witness:
  "run_gemini (\<lambda>t. Some t) (\<lambda>k. if k < 2 then ClientError 429 else Response ''{}'')
     = (Returned ''{}'', \<lparr>waits = [30, 60], calls = 3\<rparr>)"
  using run_gemini_retry[of "\<lambda>t. Some t" "\<lambda>k. if k < 2 then ClientError 429 else Response ''{}''" "''{}''" "''{}''"]
  by (simp add: base_wait_def)

section \<open>The lock\<close>






section \<open>The length window of \<^verbatim>\<open>expand_to_min_chars\<close>\<close>

lemma trim_to_max_chars_fixed:
  "ws_single t \<Longrightarrow> edged t \<Longrightarrow> int (length t) \<le> mx \<Longrightarrow> trim_to_max_chars t mx = t"
  by (simp add: trim_to_max_chars_def normalize_ws_fixed)

lemma ws_single_pad: "ws_single pad"
  by (simp add: pad_def isspace_def)

lemma ws_single_py_take: "ws_single s \<Longrightarrow> ws_single (py_take k s)"
  by (simp add: py_take_def ws_single_take)

lemma edged_last: "edged t \<Longrightarrow> t = [] \<or> \<not> isspace (last t)"
  by (auto simp: edged_def)

lemma pad_step_normal:
  assumes "ws_single t" "edged t"
  shows "ws_single (strip (t @ py_take k pad)) \<and> edged (strip (t @ py_take k pad))"
proof -
  have "ws_single (t @ py_take k pad)"
    by (rule ws_single_append[OF assms(1) ws_single_py_take[OF ws_single_pad, of k]])
      (use edged_last[OF assms(2)] in auto)
  then show ?thesis by (simp add: ws_single_strip edged_strip)
qed

lemma pad_step_length:
  assumes "0 \<le> k"
  shows "int (length (strip (t @ py_take k pad))) \<le> int (length t) + k"
  using length_strip_le[of "t @ py_take k pad"] length_py_take_le[OF assms, of pad] by simp

lemma pad_loop_result:
  assumes "pad_loop t m = Some r"
  shows "m \<le> int (length r)
       \<and> (int (length t) \<le> m \<longrightarrow> int (length r) \<le> m)
       \<and> (\<not> int (length t) < m \<longrightarrow> r = t)
       \<and> (ws_single t \<and> edged t \<longrightarrow> ws_single r \<and> edged r)"
proof (rule pad_loop.raw_induct
    [where P = "\<lambda>t m r. m \<le> int (length r)
       \<and> (int (length t) \<le> m \<longrightarrow> int (length r) \<le> m)
       \<and> (\<not> int (length t) < m \<longrightarrow> r = t)
       \<and> (ws_single t \<and> edged t \<longrightarrow> ws_single r \<and> edged r)"])
  fix f :: "string \<Rightarrow> int \<Rightarrow> string option" and t m r
  assume IH: "\<And>a b y. f a b = Some y \<Longrightarrow>
       b \<le> int (length y)
       \<and> (int (length a) \<le> b \<longrightarrow> int (length y) \<le> b)
       \<and> (\<not> int (length a) < b \<longrightarrow> y = a)
       \<and> (ws_single a \<and> edged a \<longrightarrow> ws_single y \<and> edged y)"
    and step: "(if int (length t) < m
                then f (strip (t @ py_take (m - int (length t)) pad)) m
                else Some t) = Some r"
  show "m \<le> int (length r)
       \<and> (int (length t) \<le> m \<longrightarrow> int (length r) \<le> m)
       \<and> (\<not> int (length t) < m \<longrightarrow> r = t)
       \<and> (ws_single t \<and> edged t \<longrightarrow> ws_single r \<and> edged r)"
  proof (cases "int (length t) < m")
    case False
    with step show ?thesis by simp
  next
    case True
    let ?u = "strip (t @ py_take (m - int (length t)) pad)"
    from True step have "f ?u m = Some r" by simp
    note ih = IH[OF this]
    have len: "int (length ?u) \<le> m"
      using pad_step_length[of "m - int (length t)" t] True by simp
    from ih len True pad_step_normal[of t "m - int (length t)"] show ?thesis by auto
  qed
qed (fact assms)

lemma append_fallback_normal:
  assumes "ws_single t" "edged t" "ws_single fb" "edged fb"
  shows "ws_single (append_fallback t fb) \<and> edged (append_fallback t fb)"
proof (cases "fb \<noteq> [] \<and> \<not> contains (lower fb) (lower t)")
  case False
  with assms show ?thesis by (auto simp: append_fallback_def)
next
  case True
  then have fb: "fb \<noteq> []" by simp
  with assms(4) have h: "\<not> isspace (hd fb)" by (simp add: edged_def)
  have mid: "ws_single ((if t \<noteq> [] then '' '' else []) @ fb)"
    using assms(3) h fb by (cases fb) auto
  have "ws_single (t @ (if t \<noteq> [] then '' '' else []) @ fb)"
    by (rule ws_single_append[OF assms(1) mid]) (use edged_last[OF assms(2)] in auto)
  with True show ?thesis by (simp add: append_fallback_def ws_single_strip edged_strip)
qed

text \<open>
  Claim C2 says that for \<open>min \<le> max\<close> the result of \<^verbatim>\<open>expand_to_min_chars\<close> has a length
  between \<open>min\<close> and \<open>max\<close>.  The lower bound fails: \<^verbatim>\<open>trim_to_max_chars\<close> cuts at the last
  blank before \<open>max\<close>, which can leave far fewer than \<open>min\<close> characters.  Here a meta title
  of 69 characters, one word and a long address, shrinks to its first word.
\<close>

theorem expand_to_min_chars_counterexample:
  "expand_to_min_chars
     ''Profile https://example.org/nepal/election/2026/candidates/balen-shah'' 45 65 []
     = Some ''Profile''
   \<and> \<not> (45 \<le> int (length ''Profile''))"
  by (simp add: expand_to_min_chars_def normalize_ws_def strip_def lstrip_def rstrip_def
      isspace_def py_take_def trim_to_max_chars_def Let_def rsplit_space_head_def
      rstrip_chars_def)

text \<open>
  Claim C2 as amended.  For \<open>0 \<le> max\<close> and \<open>min \<le> max\<close>, whenever
  \<^verbatim>\<open>expand_to_min_chars\<close> returns, its result has at most \<open>max\<close> characters; and it has at
  least \<open>min\<close> characters provided the text that reaches the final \<^verbatim>\<open>trim_to_max_chars\<close>
  (the normalised input when that already has \<open>min\<close> characters, the input with the
  fallback appended otherwise) is not longer than \<open>max\<close>, so that nothing is cut.
\<close>

theorem expand_to_min_chars_bounds:
  assumes "0 \<le> max_chars" and "min_chars \<le> max_chars"
    and "expand_to_min_chars text0 min_chars max_chars fallback0 = Some r"
  shows "int (length r) \<le> max_chars
       \<and> ((let t = normalize_ws text0
           in if min_chars \<le> int (length t) then int (length t) \<le> max_chars
              else int (length (append_fallback t (normalize_ws fallback0))) \<le> max_chars)
          \<longrightarrow> min_chars \<le> int (length r))"
proof -
  let ?t = "normalize_ws text0"
  let ?t1 = "append_fallback ?t (normalize_ws fallback0)"
  note nt = normalize_ws_normal[of text0]
  show ?thesis
  proof (cases "min_chars \<le> int (length ?t)")
    case True
    with assms(3) have r: "r = trim_to_max_chars ?t max_chars"
      by (simp add: expand_to_min_chars_def)
    have "int (length ?t) \<le> max_chars \<Longrightarrow> r = ?t"
      unfolding r using nt by (simp add: trim_to_max_chars_fixed)
    with True length_trim_to_max_chars[OF assms(1), of ?t] r show ?thesis by auto
  next
    case False
    with assms(3) obtain t2 where
      l: "pad_loop ?t1 min_chars = Some t2" and r: "r = trim_to_max_chars t2 max_chars"
      by (auto simp: expand_to_min_chars_def Let_def)
    have n1: "ws_single ?t1 \<and> edged ?t1"
      using nt normalize_ws_normal[of fallback0] by (simp add: append_fallback_normal)
    note pr = pad_loop_result[OF l]
    have "min_chars \<le> int (length r)" if h: "int (length ?t1) \<le> max_chars"
    proof -
      have "int (length t2) \<le> max_chars"
      proof (cases "int (length ?t1) < min_chars")
        case True
        with pr assms(2) show ?thesis by auto
      next
        case False
        with pr h show ?thesis by auto
      qed
      with pr n1 have "r = t2" unfolding r by (simp add: trim_to_max_chars_fixed)
      with pr show ?thesis by simp
    qed
    with False length_trim_to_max_chars[OF assms(1), of t2] r show ?thesis by (simp add: Let_def)
  qed
qed

theorem expand_to_min_chars_bounds_witness:
  "expand_to_min_chars ''abc'' 10 20 [] = Some ''abc Stay u''
   \<and> int (length ''abc Stay u'') \<le> 20 \<and> 10 \<le> int (length ''abc Stay u'')"
proof -
  have e: "expand_to_min_chars ''abc'' 10 20 [] = Some ''abc Stay u''"
    by (simp add: expand_to_min_chars_def append_fallback_def normalize_ws_def strip_def
        lstrip_def rstrip_def isspace_def pad_loop.simps py_take_def pad_def
        trim_to_max_chars_def Let_def)
  have "(0::int) \<le> 20" and "(10::int) \<le> 20" by simp_all
  from expand_to_min_chars_bounds[OF this e] e show ?thesis by simp
qed

section \<open>Properties of slugs\<close>

declare kebab_match.simps [simp del]

lemma hyphen_not_alnum [simp]: "\<not> is_alnum_lc CHR ''-''"
  by (simp add: is_alnum_lc_def is_lower_def is_digit_def)

lemma slug_char_not_space: "slug_char c \<Longrightarrow> \<not> isspace c"
  by (auto simp: slug_char_def is_alnum_lc_def is_lower_def is_digit_def isspace_def Let_def)

lemma slugish_chars: "slugish s \<Longrightarrow> c \<in> set s \<Longrightarrow> slug_char c"
  by (induction s rule: slugish.induct) auto

lemma slugish_Cons_tail: "slugish (c # cs) \<Longrightarrow> slugish cs"
  by (cases cs) auto

lemma slugish_append_right: "slugish (a @ b) \<Longrightarrow> slugish b"
  by (induction a) (auto dest: slugish_Cons_tail)

lemma slugish_append_left: "slugish (a @ b) \<Longrightarrow> slugish a"
proof (induction a rule: slugish.induct)
  case 1
  then show ?case by simp
next
  case (2 c)
  then show ?case by (cases b) auto
next
  case (3 c d cs)
  then show ?case by auto
qed

lemma slugish_append:
  "slugish a \<Longrightarrow> slugish b \<Longrightarrow> a = [] \<or> b = [] \<or> last a \<noteq> CHR ''-'' \<or> hd b \<noteq> CHR ''-''
   \<Longrightarrow> slugish (a @ b)"
proof (induction a rule: slugish.induct)
  case 1
  then show ?case by simp
next
  case (2 c)
  then show ?case by (cases b) auto
next
  case (3 c d cs)
  then show ?case by auto
qed

lemma slugish_take: "slugish s \<Longrightarrow> slugish (take n s)"
  using slugish_append_left[of "take n s" "drop n s"] by simp

lemma slugish_dropWhile: "slugish s \<Longrightarrow> slugish (dropWhile P s)"
  using slugish_append_right[of "takeWhile P s" "dropWhile P s"] by simp

lemma slugish_all_alnum: "\<forall>c \<in> set r. is_alnum_lc c \<Longrightarrow> slugish r"
  by (induction r rule: slugish.induct) (auto simp: slug_char_def)



lemma alnum_runs_elems:
  "r \<in> set (alnum_runs s) \<Longrightarrow> r \<noteq> [] \<and> (\<forall>c \<in> set r. is_alnum_lc c)"
proof (induction s rule: alnum_runs.induct)
  case 1
  then show ?case by simp
next
  case (2 c cs)
  show ?case
  proof (cases "is_alnum_lc c")
    case False
    with 2 show ?thesis by simp
  next
    case True
    with 2(3) consider "r = c # takeWhile is_alnum_lc cs"
      | "r \<in> set (alnum_runs (dropWhile is_alnum_lc cs))" by auto
    then show ?thesis
    proof cases
      case 1
      with True show ?thesis by (auto dest: set_takeWhileD)
    next
      case 2
      from \<open>is_alnum_lc c\<close> 2 show ?thesis by (rule "2.IH"(1))
    qed
  qed
qed

lemma kebab_all_alnum: "r \<noteq> [] \<Longrightarrow> \<forall>c \<in> set r. is_alnum_lc c \<Longrightarrow> kebab r"
  by (simp add: kebab_def slugish_all_alnum)

lemma kebab_hyphen_append:
  assumes "kebab a" "kebab b"
  shows "kebab (a @ ''-'' @ b)"
proof -
  from assms have a: "a \<noteq> []" "slugish a" "is_alnum_lc (hd a)" "is_alnum_lc (last a)"
    and b: "b \<noteq> []" "slugish b" "is_alnum_lc (hd b)" "is_alnum_lc (last b)"
    by (auto simp: kebab_def)
  from b have hb: "slugish (CHR ''-'' # b)" by (cases b) (auto simp: slug_char_def)
  have "last a \<noteq> CHR ''-''" using a(4) by auto
  then have "slugish (a @ CHR ''-'' # b)" by (intro slugish_append[OF a(2) hb]) simp
  with a b show ?thesis by (simp add: kebab_def)
qed

lemma kebab_join:
  "rs \<noteq> [] \<Longrightarrow> \<forall>r \<in> set rs. kebab r \<Longrightarrow> kebab (join ''-'' rs)"
proof (induction rs rule: induct_list012)
  case 1
  then show ?case by simp
next
  case (2 x)
  then show ?case by simp
next
  case (3 x y ys)
  from 3(4) have all: "\<forall>r \<in> set (y # ys). kebab r" and x: "kebab x" by simp_all
  have "y # ys \<noteq> []" by simp
  from 3(2)[OF this all] have k: "kebab (join ''-'' (y # ys))" .
  have "kebab (x @ ''-'' @ join ''-'' (y # ys))" by (rule kebab_hyphen_append[OF x k])
  then show ?case by (simp only: join.simps)
qed

lemma slugish_join_runs: "slugish (join ''-'' (alnum_runs s))"
proof (cases "alnum_runs s = []")
  case True
  then show ?thesis by simp
next
  case False
  have "\<forall>r \<in> set (alnum_runs s). kebab r"
    using alnum_runs_elems[of _ s] kebab_all_alnum by blast
  from kebab_join[OF False this] show ?thesis by (simp add: kebab_def)
qed

lemma join_runs_kebab_or_empty:
  "join ''-'' (alnum_runs s) = [] \<or> kebab (join ''-'' (alnum_runs s))"
proof (cases "alnum_runs s = []")
  case True
  then show ?thesis by simp
next
  case False
  have "\<forall>r \<in> set (alnum_runs s). kebab r"
    using alnum_runs_elems[of _ s] kebab_all_alnum by blast
  from kebab_join[OF False this] show ?thesis by simp
qed

lemma no_space_normal:
  assumes "\<forall>c \<in> set s. \<not> isspace c"
  shows "ws_single s \<and> edged s"
proof -
  have "ws_single s" using assms by (induction s rule: ws_single.induct) auto
  moreover have "edged s" using assms by (cases s) (auto simp: edged_def)
  ultimately show ?thesis ..
qed

lemma slugish_no_space: "slugish s \<Longrightarrow> \<forall>c \<in> set s. \<not> isspace c"
  using slugish_chars slug_char_not_space by blast

lemma normalize_ws_slugish: "slugish s \<Longrightarrow> normalize_ws s = s"
  using no_space_normal[OF slugish_no_space] by (simp add: normalize_ws_fixed)

lemma rstrip_no_space: "\<forall>c \<in> set s. \<not> isspace c \<Longrightarrow> rstrip s = s"
  by (cases "rev s") (auto simp: rstrip_def)


lemma py_take_is_take: "\<exists>n. py_take k s = take n s"
  by (auto simp: py_take_def)

lemma slugish_py_take: "slugish s \<Longrightarrow> slugish (py_take k s)"
  using py_take_is_take[of k s] slugish_take by metis

lemma slugish_rstrip_chars: "slugish s \<Longrightarrow> slugish (rstrip_chars cs s)"
  using rstrip_chars_prefix[of s cs] slugish_append_left by metis

lemma trim_to_max_chars_slugish:
  assumes "slugish s"
  shows "trim_to_max_chars s mx =
           (if int (length s) \<le> mx then s else rstrip_chars '' ,;:-'' (py_take mx s))"
proof -
  have n: "normalize_ws s = s" by (rule normalize_ws_slugish[OF assms])
  have ns: "\<forall>c \<in> set (py_take mx s). \<not> isspace c"
    by (rule slugish_no_space[OF slugish_py_take[OF assms]])
  then have r: "rstrip (py_take mx s) = py_take mx s" by (rule rstrip_no_space)
  from ns have "CHR '' '' \<notin> set (py_take mx s)" by auto
  with n r show ?thesis by (simp add: trim_to_max_chars_def Let_def)
qed

lemma slugish_trim_to_max_chars: "slugish s \<Longrightarrow> slugish (trim_to_max_chars s mx)"
  by (simp add: trim_to_max_chars_slugish slugish_rstrip_chars slugish_py_take)

lemma strip_chars_hyphen_kebab:
  assumes "slugish t"
  shows "strip_chars ''-'' t = [] \<or> kebab (strip_chars ''-'' t)"
proof (cases "strip_chars ''-'' t = []")
  case True
  then show ?thesis ..
next
  case False
  let ?P = "\<lambda>c. c \<in> set ''-''"
  let ?q = "rstrip_chars ''-'' t"
  let ?r = "dropWhile ?P ?q"
  have r: "strip_chars ''-'' t = ?r" by (simp add: strip_chars_def)
  with False have rne: "?r \<noteq> []" by simp
  then have qne: "?q \<noteq> []" by auto
  have sq: "slugish ?q" by (rule slugish_rstrip_chars[OF assms])
  then have sr: "slugish ?r" by (rule slugish_dropWhile)
  have "\<not> ?P (hd ?r)" using rne by (rule hd_dropWhile)
  moreover have "slug_char (hd ?r)" using slugish_chars[OF sr] rne by simp
  ultimately have h: "is_alnum_lc (hd ?r)" by (simp add: slug_char_def)
  have "rev ?q = dropWhile ?P (rev t)" by (simp add: rstrip_chars_def)
  moreover from qne have "rev ?q \<noteq> []" by simp
  ultimately have "\<not> ?P (hd (rev ?q))" using hd_dropWhile[of ?P "rev t"] by simp
  then have lq: "\<not> ?P (last ?q)" using qne by (simp add: hd_rev)
  have "last ?r = last ?q" using rne by (metis last_appendR takeWhile_dropWhile_id)
  moreover have "slug_char (last ?r)" using slugish_chars[OF sr] rne by simp
  ultimately have l: "is_alnum_lc (last ?r)" using lq by (simp add: slug_char_def)
  from rne sr h l have "kebab ?r" by (simp add: kebab_def)
  with r show ?thesis by simp
qed

lemma kebab_default_slug: "kebab default_slug"
  by (simp add: kebab_def default_slug_def slug_char_def is_alnum_lc_def is_lower_def is_digit_def)

lemma kebab_trim_slug: "kebab (trim_slug s mx)"
proof -
  let ?n = "join ''-'' (alnum_runs (lower (normalize_ws s)))"
  have "slugish (trim_to_max_chars ?n mx)"
    by (rule slugish_trim_to_max_chars[OF slugish_join_runs])
  from strip_chars_hyphen_kebab[OF this] kebab_default_slug
  show ?thesis by (auto simp: trim_slug_def Let_def)
qed

lemma trim_slug_nonempty: "trim_slug s mx \<noteq> []"
  using kebab_trim_slug[of s mx] by (auto simp: kebab_def)

lemma set_collapse_ws: "set (collapse_ws s) \<subseteq> insert CHR '' '' (set s)"
  by (induction s rule: collapse_ws.induct) (auto dest: set_dropWhileD)

lemma set_strip: "set (strip s) \<subseteq> set s"
proof -
  have "set (rstrip s) \<subseteq> set s"
    using set_dropWhileD[of _ isspace "rev s"] by (auto simp: rstrip_def)
  moreover have "set (lstrip (rstrip s)) \<subseteq> set (rstrip s)"
    by (auto simp: lstrip_def dest: set_dropWhileD)
  ultimately show ?thesis by (auto simp: strip_def)
qed

lemma alnum_runs_none: "\<forall>c \<in> set s. \<not> is_alnum_lc c \<Longrightarrow> alnum_runs s = []"
  by (induction s rule: alnum_runs.induct) auto

lemma trim_to_max_chars_Nil [simp]: "trim_to_max_chars [] mx = []"
  by (simp add: trim_to_max_chars_def normalize_ws_def strip_def lstrip_def rstrip_def py_take_def
      rstrip_chars_def)

lemma trim_slug_default:
  assumes "\<forall>c \<in> set s. \<not> is_alnum_lc (lower_char c)"
  shows "trim_slug s mx = default_slug"
proof -
  have "set (normalize_ws s) \<subseteq> insert CHR '' '' (set s)"
    using set_strip[of "collapse_ws s"] set_collapse_ws[of s] by (auto simp: normalize_ws_def)
  moreover have "\<not> is_alnum_lc (lower_char CHR '' '')"
    by (simp add: lower_char_def is_upper_def is_alnum_lc_def is_lower_def is_digit_def)
  ultimately have "\<forall>c \<in> set (lower (normalize_ws s)). \<not> is_alnum_lc c"
    using assms by (auto simp: lower_def)
  then have "alnum_runs (lower (normalize_ws s)) = []" by (rule alnum_runs_none)
  then show ?thesis by (simp add: trim_slug_def strip_chars_def rstrip_chars_def)
qed

text \<open>
  Claim C6 says that the slug canonicaliser never returns the empty string and falls back to
  the fixed default slug on input without letters or digits.  \<^verbatim>\<open>trim_slug\<close> of
  \<^verbatim>\<open>cybersecurity_autopost.py\<close> does so (\<open>trim_slug_nonempty\<close>, \<open>trim_slug_default\<close> above).
  \<^verbatim>\<open>trim_slug\<close> of \<^verbatim>\<open>gemini_autopost.py\<close> has no fallback: on a slug of punctuation it
  returns the empty string, and its \<^verbatim>\<open>normalize_seo_fields\<close> stores that as the slug of the
  draft.
\<close>

theorem gemini_trim_slug_empty:
  "gemini_trim_slug ''!!!'' = []
   \<and> slug (gemini_normalize_seo_fields (skip_draft\<lparr>status := ''publish'', slug := ''!!!''\<rparr>)) = []
   \<and> trim_slug ''!!!'' 120 = default_slug"
proof -
  have g: "gemini_trim_slug ''!!!'' = []"
    by (simp add: gemini_trim_slug_def normalize_ws_def strip_def lstrip_def rstrip_def
        isspace_def lower_def lower_char_def is_upper_def is_alnum_lc_def is_lower_def
        is_digit_def strip_chars_def rstrip_chars_def)
  have "\<forall>c \<in> set ''!!!''. \<not> is_alnum_lc (lower_char c)"
    by (simp add: lower_char_def is_upper_def is_alnum_lc_def is_lower_def is_digit_def)
  then have t: "trim_slug ''!!!'' 120 = default_slug" by (rule trim_slug_default)
  from g t show ?thesis
    by (simp add: gemini_normalize_seo_fields_def skip_draft_def Let_def)
qed

section \<open>Membership in the violation list\<close>






section \<open>The slug of a normalised draft\<close>





section \<open>The sample draft under validation and normalisation\<close>

lemma sample_facts:
  shows strip_T: "strip ''Balen Shah candidate profile for the Nepal election 2026'' = ''Balen Shah candidate profile for the Nepal election 2026''"
    and lower_T: "lower ''Balen Shah candidate profile for the Nepal election 2026'' = ''balen shah candidate profile for the nepal election 2026''"
    and fresh_T: "\<not> near_duplicate_title ''Balen Shah candidate profile for the Nepal election 2026'' sample_titles"
    and strip_S: "strip ''balen-shah-candidate-profile-nepal-election-2026'' = ''balen-shah-candidate-profile-nepal-election-2026''"
    and lower_S: "lower ''balen-shah-candidate-profile-nepal-election-2026'' = ''balen-shah-candidate-profile-nepal-election-2026''"
    and kebab_S: "kebab_match ''balen-shah-candidate-profile-nepal-election-2026''"
    and runs_S: "join ''-'' (alnum_runs ''balen-shah-candidate-profile-nepal-election-2026'') = ''balen-shah-candidate-profile-nepal-election-2026''"
    and strip_E: "strip (''Balen Shah candidate profile: background, political career, policy positions'' @
       '' and electoral outlook ahead of the Nepal election on 5 March 2026.'') = (''Balen Shah candidate profile: background, political career, policy positions'' @
       '' and electoral outlook ahead of the Nepal election on 5 March 2026.'')"
    and lower_E: "lower (''Balen Shah candidate profile: background, political career, policy positions'' @
       '' and electoral outlook ahead of the Nepal election on 5 March 2026.'') = (''balen shah candidate profile: background, political career, policy positions'' @
       '' and electoral outlook ahead of the nepal election on 5 march 2026.'')"
    and norm_0: "normalize_ws ''Balen Shah'' = ''Balen Shah''"
    and norm_1: "normalize_ws ''Nepal general election 2026'' = ''Nepal general election 2026''"
    and norm_2: "normalize_ws ''2026-03-05'' = ''2026-03-05''"
    and norm_3: "normalize_ws ''Independent'' = ''Independent''"
    and norm_4: "normalize_ws ''Kathmandu'' = ''Kathmandu''"
    and norm_5: "normalize_ws ''Mayor of Kathmandu'' = ''Mayor of Kathmandu''"
    and norm_6: "normalize_ws ''Engineer and rapper who became mayor of Kathmandu in 2022 as an independent.'' = ''Engineer and rapper who became mayor of Kathmandu in 2022 as an independent.''"
    and norm_7: "normalize_ws ''https://site01.example.org/balen-shah/1'' = ''https://site01.example.org/balen-shah/1''"
    and norm_nil: "normalize_ws [] = []"
    and nepal: "contains ''nepal'' (lower ''Nepal general election 2026'')"
    and psu_http: "startswith ''https://site01.example.org/balen-shah/1'' ''http''"
    and psu_slash: "rstrip_chars ''/'' ''https://site01.example.org/balen-shah/1'' = ''https://site01.example.org/balen-shah/1''"
    and new_cand: "normalize_candidate_name ''Balen Shah'' \<notin> normalize_candidate_name ` set sample_candidates"
    and ct: "candidate_tokens ''Balen Shah'' = {''balen'', ''shah''}"
    and tok_T: "tokens_in {''balen'', ''shah''} ''balen shah candidate profile for the nepal election 2026'' = 2"
    and tok_E: "tokens_in {''balen'', ''shah''} (''balen shah candidate profile: background, political career, policy positions'' @
       '' and electoral outlook ahead of the nepal election on 5 march 2026.'') = 2"
    and strip_KP: "strip ''balen shah candidate profile'' = ''balen shah candidate profile''"
    and lower_KP: "lower ''balen shah candidate profile'' = ''balen shah candidate profile''"
    and strip_MT: "strip ''Balen Shah Candidate Profile: Nepal Election 2026.'' = ''Balen Shah Candidate Profile: Nepal Election 2026.''"
    and lower_MT: "lower ''Balen Shah Candidate Profile: Nepal Election 2026.'' = ''balen shah candidate profile: nepal election 2026.''"
    and strip_MD: "strip (''Balen Shah candidate profile for the Nepal election on 5 March 2026: backgro'' @
       ''und, career timeline, key policy positions, critics and electoral outlook.'') = (''Balen Shah candidate profile for the Nepal election on 5 March 2026: backgro'' @
       ''und, career timeline, key policy positions, critics and electoral outlook.'')"
    and lower_MD: "lower (''Balen Shah candidate profile for the Nepal election on 5 March 2026: backgro'' @
       ''und, career timeline, key policy positions, critics and electoral outlook.'') = (''balen shah candidate profile for the nepal election on 5 march 2026: backgro'' @
       ''und, career timeline, key policy positions, critics and electoral outlook.'')"
    and runs_KP: "join ''-'' (alnum_runs ''balen shah candidate profile'') = ''balen-shah-candidate-profile''"
    and kp_T: "contains ''balen shah candidate profile'' ''balen shah candidate profile for the nepal election 2026''"
    and kp_E: "contains ''balen shah candidate profile'' (''balen shah candidate profile: background, political career, policy positions'' @
       '' and electoral outlook ahead of the nepal election on 5 march 2026.'')"
    and kp_MT: "contains ''balen shah candidate profile'' ''balen shah candidate profile: nepal election 2026.''"
    and kp_MD: "contains ''balen shah candidate profile'' (''balen shah candidate profile for the nepal election on 5 march 2026: backgro'' @
       ''und, career timeline, key policy positions, critics and electoral outlook.'')"
    and fs_S: "contains ''balen-shah-candidate-profile'' ''balen-shah-candidate-profile-nepal-election-2026''"
  by code_simp+


lemma tokens_in_both:
  assumes "contains a t" "contains b t" "a \<noteq> b"
  shows "tokens_in {a, b} t = 2"
proof -
  have "Set.filter (\<lambda>token. contains token t) {a, b} = {a, b}" using assms by auto
  with assms(3) show ?thesis by (simp add: tokens_in_def)
qed

lemma sample_draft_validate:
  assumes c1: "strip c = c" and c2: "1800 \<le> length c" and c3: "contains ''faq'' (lower c)"
    and c4: "3 \<le> count_h3_questions c"
    and c5: "contains ''balen'' (lower c)" and c6: "contains ''shah'' (lower c)"
    and c7: "contains ''balen shah candidate profile'' (lower c)"
    and s1: "min_src \<le> int (length srcs)"
    and s2: "''https://site01.example.org/balen-shah/1'' \<in> (\<lambda>u. rstrip_chars ''/'' u) ` source_urls srcs"
    and m: "min_conf \<le> 90"
  shows "validate_payload netloc (sample_draft c srcs) sample_titles sample_candidates min_src min_conf =
           (if int (card (unique_domains netloc srcs)) < min_src
            then [TooFewDomains min_src (card (unique_domains netloc srcs))] else [])"
proof -
  have c8: "tokens_in {''balen'', ''shah''} (lower c) = 2"
    by (rule tokens_in_both[OF c5 c6]) simp
  show ?thesis
    unfolding validate_payload_def Let_def
    using c1 c2 c3 c4 c7 c8 s1 s2 m sample_facts
    by (simp add: sample_draft_def sample_profile_def sample_seo_def add_if_def
        del: alnum_runs.simps join.simps)
qed

lemma contains_lower_append_left: "contains x (lower a) \<Longrightarrow> contains x (lower (a @ b))"
  by (auto simp: contains_def lower_def sublist_append)

lemma sample_faq_facts:
  shows "contains ''faq'' (lower sample_faq)"
    and "contains ''balen'' (lower sample_faq)"
    and "contains ''shah'' (lower sample_faq)"
    and "contains ''balen shah candidate profile'' (lower sample_faq)"
  by code_simp+

lemma sample_content_contains:
  shows "contains ''faq'' (lower sample_content)"
    and "contains ''balen'' (lower sample_content)"
    and "contains ''shah'' (lower sample_content)"
    and "contains ''balen shah candidate profile'' (lower sample_content)"
  unfolding sample_content_def by (rule contains_lower_append_left, rule sample_faq_facts)+

lemma sample_lengths: "length sample_faq = 288" "length sample_paragraph = 275"
  by (simp_all add: sample_faq_def sample_paragraph_def)

lemma sample_content_length: "length sample_content = 1938"
  by (simp add: sample_content_def sample_lengths)

lemma sample_content_strip: "strip sample_content = sample_content"
proof (rule strip_fixed)
  have f: "sample_faq \<noteq> []" "hd sample_faq = CHR ''<''" by (simp_all add: sample_faq_def)
  have p: "sample_paragraph \<noteq> []" "last sample_paragraph = CHR ''>''"
    by (simp_all add: sample_paragraph_def)
  have "hd sample_content = CHR ''<''" using f by (simp add: sample_content_def)
  moreover have "last sample_content = CHR ''>''" using p by (simp add: sample_content_def)
  moreover have "sample_content \<noteq> []" using f by (simp add: sample_content_def)
  ultimately show "edged sample_content" by (simp add: edged_def isspace_def)
qed

lemma lower_char_eq_lt: "lower_char c = CHR ''<'' \<longleftrightarrow> c = CHR ''<''"
proof
  assume "lower_char c = CHR ''<''"
  then show "c = CHR ''<''"
    by (cases "is_upper c") (auto simp: lower_char_def is_upper_def Let_def dest: arg_cong[where f = "of_char :: char \<Rightarrow> nat"])
qed (simp add: lower_char_def is_upper_def)

lemma lower_char_eq_qm: "lower_char c = CHR ''?'' \<longleftrightarrow> c = CHR ''?''"
proof
  assume "lower_char c = CHR ''?''"
  then show "c = CHR ''?''"
    by (cases "is_upper c") (auto simp: lower_char_def is_upper_def Let_def dest: arg_cong[where f = "of_char :: char \<Rightarrow> nat"])
qed (simp add: lower_char_def is_upper_def)

lemma lower_char_eq_lt': "CHR ''<'' = lower_char c \<longleftrightarrow> c = CHR ''<''"
  using lower_char_eq_lt[of c] by auto

lemma lower_char_eq_qm': "CHR ''?'' = lower_char c \<longleftrightarrow> c = CHR ''?''"
  using lower_char_eq_qm[of c] by auto

lemma count_skip: "c \<noteq> CHR ''<'' \<Longrightarrow> count_h3_questions (c # cs) = count_h3_questions cs"
  by (simp add: h3_question_at_def prefix_ci_def lower_def lower_char_eq_lt')

lemma close_skip: "c \<noteq> CHR ''?'' \<Longrightarrow> find_question_close (c # cs) = find_question_close cs"
  by (simp add: prefix_ci_def lower_def lower_char_eq_qm')

lemma count_at_lt:
  "count_h3_questions (CHR ''<'' # cs) =
     (case h3_question_at (CHR ''<'' # cs) of
        Some rest \<Rightarrow> Suc (count_h3_questions rest)
      | None \<Rightarrow> count_h3_questions cs)"
  by simp

lemma close_at_qm:
  "find_question_close (CHR ''?'' # cs) =
     (if prefix_ci ''?</h3>'' (CHR ''?'' # cs) then Some (drop 6 (CHR ''?'' # cs))
      else find_question_close cs)"
  by simp

lemma sample_faq_questions: "3 \<le> count_h3_questions (sample_faq @ rest)"
  by (simp add: sample_faq_def count_skip close_skip count_at_lt close_at_qm
      h3_question_at_def prefix_ci_def lower_def lower_char_def is_upper_def
      del: count_h3_questions.simps find_question_close.simps)

lemma sample_content_questions: "3 \<le> count_h3_questions sample_content"
  unfolding sample_content_def by (rule sample_faq_questions)

lemma unique_domains_explicit:
  assumes "\<forall>s \<in> set srcs. lower (strip (domain s)) \<noteq> []"
  shows "unique_domains netloc srcs = set (map (\<lambda>s. lower (strip (domain s))) srcs)"
proof -
  have m: "map (source_domain netloc) srcs = map (\<lambda>s. lower (strip (domain s))) srcs"
    using assms by (intro map_cong) (auto simp: source_domain_def Let_def)
  have "\<forall>d \<in> set (map (\<lambda>s. lower (strip (domain s))) srcs). d \<noteq> []"
    using assms by auto
  then have "Set.filter (\<lambda>d. d \<noteq> []) (set (map (\<lambda>s. lower (strip (domain s))) srcs))
               = set (map (\<lambda>s. lower (strip (domain s))) srcs)"
    by auto
  with m show ?thesis by (simp only: unique_domains_def)
qed

lemma sample_sources_facts:
  shows "list_all (\<lambda>s. lower (strip (domain s)) \<noteq> []) sources_5_domains"
    and "list_all (\<lambda>s. lower (strip (domain s)) \<noteq> []) sources_15_domains"
    and "card (set (map (\<lambda>s. lower (strip (domain s))) sources_5_domains)) = 5"
    and "card (set (map (\<lambda>s. lower (strip (domain s))) sources_15_domains)) = 15"
    and "length sources_5_domains = 15"
    and "length sources_15_domains = 15"
    and "''https://site01.example.org/balen-shah/1''
           \<in> (\<lambda>u. rstrip_chars ''/'' u) ` source_urls sources_5_domains"
    and "''https://site01.example.org/balen-shah/1''
           \<in> (\<lambda>u. rstrip_chars ''/'' u) ` source_urls sources_15_domains"
  by code_simp+

lemma sample_domains:
  shows "card (unique_domains netloc sources_5_domains) = 5"
    and "card (unique_domains netloc sources_15_domains) = 15"
  using sample_sources_facts(1-4) by (simp_all add: unique_domains_explicit list_all_iff)






section \<open>Source count and domain count\<close>

text \<open>
  Claim C4 says that scenario B (15 sources on only 5 distinct domains, validated with
  \<open>min_sources = 12\<close>, every other rule met) yields exactly two violations, one for the
  number of sources and one for the number of domains.  The source-count rule compares
  \<^verbatim>\<open>len(sources)\<close> with \<^verbatim>\<open>min_sources\<close>, and 15 is not below 12: scenario A passes with no
  violation, and scenario B yields the domain violation alone.
\<close>

theorem scenario_b_counterexample:
  "length (sources scenario_b) = 15
   \<and> card (unique_domains url_authority (sources scenario_b)) = 5
   \<and> validate_payload url_authority scenario_a sample_titles sample_candidates 12 85 = []
   \<and> validate_payload url_authority scenario_b sample_titles sample_candidates 12 85
       = [TooFewDomains 12 5]
   \<and> length (validate_payload url_authority scenario_b sample_titles sample_candidates 12 85) \<noteq> 2"
proof -
  have c: "1800 \<le> length sample_content" by (simp add: sample_content_length)
  have i: "(12::int) \<le> int (length sources_5_domains)" "(12::int) \<le> int (length sources_15_domains)"
    "(85::int) \<le> 90"
    by (simp_all add: sample_sources_facts)
  have a: "validate_payload url_authority scenario_a sample_titles sample_candidates 12 85 = []"
    unfolding scenario_a_def
    using sample_draft_validate[OF sample_content_strip c sample_content_contains(1)
        sample_content_questions sample_content_contains(2,3,4) i(2) sample_sources_facts(8) i(3),
        of url_authority]
    by (simp add: sample_domains)
  have b: "validate_payload url_authority scenario_b sample_titles sample_candidates 12 85
             = [TooFewDomains 12 5]"
    unfolding scenario_b_def
    using sample_draft_validate[OF sample_content_strip c sample_content_contains(1)
        sample_content_questions sample_content_contains(2,3,4) i(1) sample_sources_facts(7) i(3),
        of url_authority]
    by (simp add: sample_domains)
  have s: "sources scenario_b = sources_5_domains"
    by (simp add: scenario_b_def sample_draft_def)
  from a b s show ?thesis by (simp add: sample_domains sample_sources_facts(5))
qed

text \<open>
  Claim C4 as amended: a draft that meets every other rule, with 15 sources on only 5
  distinct domains and \<open>min_sources = 12\<close>, yields exactly one violation, the one for the
  number of distinct domains.  This holds for the sample draft with any body and any list of
  sources that meet the rules, and for every \<^verbatim>\<open>netloc\<close> function.
\<close>

theorem too_few_domains_only:
  assumes "strip body = body" and "1800 \<le> length body" and "contains ''faq'' (lower body)"
    and "3 \<le> count_h3_questions body"
    and "contains ''balen'' (lower body)" and "contains ''shah'' (lower body)"
    and "contains ''balen shah candidate profile'' (lower body)"
    and "length srcs = 15"
    and "''https://site01.example.org/balen-shah/1'' \<in> (\<lambda>u. rstrip_chars ''/'' u) ` source_urls srcs"
    and "card (unique_domains netloc srcs) = 5"
  shows "validate_payload netloc (sample_draft body srcs) sample_titles sample_candidates 12 85
           = [TooFewDomains 12 5]"
proof -
  have "(12::int) \<le> int (length srcs)" and "(85::int) \<le> 90" using assms(8) by simp_all
  from sample_draft_validate[OF assms(1-7) this(1) assms(9) this(2), of netloc] assms(10)
  show ?thesis by simp
qed


theorem too_few_domains_only_witness:
  "validate_payload url_authority scenario_b sample_titles sample_candidates 12 85
     = [TooFewDomains 12 5]"
  unfolding scenario_b_def
  by (rule too_few_domains_only[OF sample_content_strip _ sample_content_contains(1)
        sample_content_questions sample_content_contains(2,3,4) sample_sources_facts(5,7)
        sample_domains(1)]) (simp add: sample_content_length)


section \<open>Every rule is evaluated\<close>








end
